theory Spec2Isabelle
  imports Main
begin

section \<open>Shared data model\<close>

text \<open>
  The compiler has two halves. \<open>createClassicAST\<close> (the second part of
  src/transform/src/createModernNode.ts, which holds the text of createClassicNode)
  rewrites a parsed GraphQL definition and collects the substitution slots of its
  fragment spreads. \<open>RelayQLPrinter\<close> (the second part of src/unnamed/part_000) prints a
  RelayQL definition as a TypeScript expression tree. Both throw JavaScript exceptions;
  the model returns them as values.
\<close>

datatype error =
    TooManyRootFields               \<comment> \<open>"There are %d fields supplied to the query named ..."\<close>
  | InvalidRootFieldArity           \<comment> \<open>"Invalid root field ...; Relay only supports root fields with zero or one argument."\<close>
  | ConflictingPaginationArguments  \<comment> \<open>"Connection arguments ... are not supported unless both are variables."\<close>
  | MissingPaginationArgument       \<comment> \<open>"You supplied the `%s` field on a connection named `%s`, but ..."\<close>
  | UseEdgesNodeInstead             \<comment> \<open>"You supplied a field named `%s` on a connection named `%s`, but pagination ..."\<close>
  | WrongMutationArgumentShape      \<comment> \<open>the three messages of validateMutationField\<close>
  | MisplacedNodeField              \<comment> \<open>"You defined a `node(%s: %s)` field on type `%s`, but ..."\<close>
  | SpreadDirectivesUnsupported     \<comment> \<open>"Directives are not yet supported for `${fragment}`-style fragment references."\<close>
  | RelayVariableArgument           \<comment> \<open>"You supplied `$%s` as the `%s` argument to the `@relay` directive, ..."\<close>
  | VariablesNotArray               \<comment> \<open>"The variables argument to the @relay directive should be an array of strings."\<close>
  | DuplicateArgumentDefinitions    \<comment> \<open>"Expected only one @argumentDefinitions directive"\<close>
  | ConflictingSpreadDirectives     \<comment> \<open>"Cannot use both `@arguments` and `@relay(mask: false)` on the same fragment spread ..."\<close>
  | UnsupportedSpreadDirective      \<comment> \<open>"Unsupported directive `...` on fragment spread `......`."\<close>
  | InvalidRelayDirective           \<comment> \<open>"Expected `@relay` directive to only have `mask` argument in compat mode, but get %s"\<close>
  | MissingSubstitutionName         \<comment> \<open>"Expected `substitutionName` to be non-nul"\<close>
  | UnsupportedLiteral              \<comment> \<open>"Unsupported literal type `...`."\<close>
  | TypeError                       \<comment> \<open>a TypeError of the JavaScript runtime or of createLiteral\<close>
  | OutOfFuel                       \<comment> \<open>not an exception of the program: the recursion bound of the model was reached\<close>

definition bind :: "error + 'a \<Rightarrow> ('a \<Rightarrow> error + 'b) \<Rightarrow> error + 'b" where
  "bind m f = (case m of Inl e \<Rightarrow> Inl e | Inr x \<Rightarrow> f x)"

text \<open>\<open>xs.map(f)\<close> where \<open>f\<close> may throw: left to right, stopping at the first exception.\<close>

fun mapM :: "('a \<Rightarrow> error + 'b) \<Rightarrow> 'a list \<Rightarrow> error + 'b list" where
  "mapM f [] = Inr []"
| "mapM f (x # xs) = bind (f x) (\<lambda>y. bind (mapM f xs) (\<lambda>ys. Inr (y # ys)))"

text \<open>
  A number that reaches a numeric literal: a number held by the RelayQL AST, or the result
  of \<open>parseInt(text, 10)\<close> or \<open>parseFloat(text)\<close>, which the model leaves unevaluated.
\<close>

datatype NumericText = FromNumber int | FromParseInt string | FromParseFloat string

text \<open>
  The TypeScript expressions the compiler builds (\<open>ts.Expression\<close>, alias \<open>Printable\<close>).
  The printer compares nodes with the one \<open>NULL\<close> node it created at start-up by reference
  (\<open>value !== NULL\<close>), so a null literal records whether it is that shared node.
\<close>

datatype NullOrigin = SharedNULL | FreshNull

datatype Printable =
    StringLiteral string
  | NumericLiteral NumericText
  | TrueLiteral
  | FalseLiteral
  | NullLiteral NullOrigin
  | Identifier string
  | ArrayLiteralExpression "Printable list"
  | ObjectLiteralExpression "(string \<times> Printable) list"
  | PropertyAccessExpression Printable string
  | CallExpression Printable "Printable list"
  | FunctionExpression "string list" Printable
      \<comment> \<open>parameter names, and the expression the one return statement of the body returns\<close>

text \<open>
  A JavaScript object used as a dictionary with string keys that are not integer-like
  (GraphQL names start with a letter or an underscore): \<open>Object.keys\<close> lists the keys in
  insertion order, and an assignment to an existing key keeps its place.
\<close>

fun objSet :: "string \<Rightarrow> 'v \<Rightarrow> (string \<times> 'v) list \<Rightarrow> (string \<times> 'v) list" where
  "objSet k v [] = [(k, v)]"
| "objSet k v ((k', v') # rest) =
     (if k = k' then (k, v) # rest else (k', v') # objSet k v rest)"

text \<open>
  The assignment \<open>obj[key] = value\<close> where \<open>obj\<close> inherits from \<open>Object.prototype\<close> and
  \<open>value\<close> is an object. The key \<open>__proto__\<close> names an accessor of \<open>Object.prototype\<close>:
  assigning an object to it replaces the prototype of \<open>obj\<close> and adds no own property,
  so \<open>Object.keys\<close> does not list it. The objects assigned below are plain objects and
  TypeScript nodes, which inherit from \<open>Object.prototype\<close> themselves, so the accessor
  stays in reach after such an assignment.
\<close>

definition assignObject :: "string \<Rightarrow> 'v \<Rightarrow> (string \<times> 'v) list \<Rightarrow> (string \<times> 'v) list" where
  "assignObject k v obj = (if k = ''__proto__'' then obj else objSet k v obj)"

text \<open>
  An object that is only ever assigned \<open>null\<close>: whether its prototype has become \<open>null\<close>,
  and its own keys. The first \<open>obj['__proto__'] = null\<close> goes to the accessor and sets the
  prototype to \<open>null\<close>; from then on no accessor is inherited and the same assignment
  creates an own property like any other key.
\<close>

type_synonym NullTable = "bool \<times> (string \<times> unit) list"

definition assignNull :: "string \<Rightarrow> NullTable \<Rightarrow> NullTable" where
  "assignNull k obj =
     (if k = ''__proto__'' \<and> \<not> fst obj then (True, snd obj)
      else (fst obj, objSet k () (snd obj)))"

definition objDelete :: "string \<Rightarrow> (string \<times> 'v) list \<Rightarrow> (string \<times> 'v) list" where
  "objDelete k obj = filter (\<lambda>kv. fst kv \<noteq> k) obj"

definition hasOwnProperty :: "(string \<times> 'v) list \<Rightarrow> string \<Rightarrow> bool" where
  "hasOwnProperty obj k = (k \<in> set (map fst obj))"

definition digit_char :: "nat \<Rightarrow> char" where
  "digit_char d =
     (if d = 0 then CHR ''0'' else if d = 1 then CHR ''1'' else if d = 2 then CHR ''2''
      else if d = 3 then CHR ''3'' else if d = 4 then CHR ''4'' else if d = 5 then CHR ''5''
      else if d = 6 then CHR ''6'' else if d = 7 then CHR ''7'' else if d = 8 then CHR ''8''
      else CHR ''9'')"

text \<open>String conversion of a non-negative integer, as \<open>'_args' + fragmentID\<close> performs it.\<close>

fun string_of_nat :: "nat \<Rightarrow> string" where
  "string_of_nat n =
     (if n < 10 then [digit_char n] else string_of_nat (n div 10) @ [digit_char (n mod 10)])"

declare string_of_nat.simps [simp del]

section \<open>The normalizer: createClassicAST\<close>

subsection \<open>The GraphQL document (graphql-js nodes)\<close>

datatype ValueNode =
    Variable string
  | IntValue string
  | FloatValue string
  | StringValue string
  | BooleanValue bool
  | NullValue
  | EnumValue string
  | ListValue "ValueNode list"
  | ObjectValue "(string \<times> ValueNode) list"

datatype ArgumentNode = ArgumentNode (argName: string) (argValue: ValueNode)

text \<open>\<open>arguments\<close> is an optional property of a directive node; the code tests it.\<close>

datatype DirectiveNode =
  DirectiveNode (dirName: string) (dirArguments: "ArgumentNode list option")

datatype SelectionNode =
    FieldNode "string option" string "ArgumentNode list" "DirectiveNode list" "SelectionNode list"
  | FragmentSpreadNode string "DirectiveNode list option"
  | InlineFragmentNode "string option" "DirectiveNode list" "SelectionNode list"

datatype VariableDefinitionNode =
  VariableDefinitionNode (vdVariable: string) (vdType: string)
    (vdDefaultValue: "ValueNode option") (vdDirectives: "DirectiveNode list")

datatype DefinitionNode =
    OperationDefinition string "string option" "VariableDefinitionNode list"
      "DirectiveNode list" "SelectionNode list"
  | FragmentDefinition string string "DirectiveNode list" "SelectionNode list"

subsection \<open>Substitution slots and the state of one call\<close>

record Fragment =
  fragment_name :: string
  fragment_isMasked :: bool
  fragment_args :: "Printable option"

text \<open>
  The variables \<open>fragmentID\<close>, \<open>fragments\<close>, \<open>variables\<close> and \<open>argumentDefinitions\<close> that
  the visitors of one \<open>createClassicAST\<close> call close over.
\<close>

record NormalizerState =
  fragmentID :: nat
  fragments :: "(string \<times> Fragment) list"
  variables :: NullTable
  argumentDefinitions :: "ArgumentNode list option"

definition initialState :: NormalizerState where
  "initialState = \<lparr> fragmentID = 0, fragments = [], variables = (False, []),
       argumentDefinitions = None \<rparr>"

subsection \<open>parseValue, convertArgument, createObject\<close>

definition createObject :: "(string \<times> Printable option) list \<Rightarrow> Printable" where
  "createObject obj =
     ObjectLiteralExpression
       (map (\<lambda>(key, v). (key, case v of None \<Rightarrow> NullLiteral FreshNull | Some e \<Rightarrow> e)) obj)"

fun parseValue :: "ValueNode \<Rightarrow> error + Printable"
  and parseValues :: "ValueNode list \<Rightarrow> error + Printable list"
where
  "parseValue (BooleanValue b) = Inr (if b then TrueLiteral else FalseLiteral)"
| "parseValue (IntValue t) = Inr (NumericLiteral (FromParseInt t))"
| "parseValue (FloatValue t) = Inr (NumericLiteral (FromParseFloat t))"
| "parseValue (StringValue t) = Inr (StringLiteral t)"
| "parseValue (EnumValue t) = Inr (StringLiteral t)"
| "parseValue (ListValue vs) = bind (parseValues vs) (\<lambda>es. Inr (ArrayLiteralExpression es))"
| "parseValue (Variable v) = Inl UnsupportedLiteral"
| "parseValue NullValue = Inl UnsupportedLiteral"
| "parseValue (ObjectValue fs) = Inl UnsupportedLiteral"
| "parseValues [] = Inr []"
| "parseValues (v # vs) =
     bind (parseValue v) (\<lambda>e. bind (parseValues vs) (\<lambda>es. Inr (e # es)))"

definition convertArgument :: "ArgumentNode \<Rightarrow> error + (string \<times> Printable)" where
  "convertArgument argNode =
     (case argValue argNode of
        Variable paramName \<Rightarrow>
          Inr (argName argNode,
               createObject [(''kind'', Some (StringLiteral ''CallVariable'')),
                             (''callVariableName'', Some (StringLiteral paramName))])
      | v \<Rightarrow> bind (parseValue v) (\<lambda>ast. Inr (argName argNode, ast)))"

subsection \<open>The traversal of graphql's visit, with the three visitors\<close>

text \<open>
  \<open>visit\<close> walks the definition depth first in document order and calls the visitor of a
  node's kind when it enters the node. A visitor that returns \<open>null\<close> removes the node and
  its subtree is not walked; one that returns a node replaces the node and the walk goes
  on inside the replacement. The walk itself belongs to the graphql library; below it is
  written out for the node kinds above, in the library's key order (a field: arguments,
  directives, selection set; an operation: variable definitions, directives, selection
  set).
\<close>

text \<open>The \<open>Variable\<close> visitor: \<open>variables[node.name.value] = null\<close>.\<close>

fun visitValue :: "ValueNode \<Rightarrow> NullTable \<Rightarrow> NullTable"
  and visitValues :: "ValueNode list \<Rightarrow> NullTable \<Rightarrow> NullTable"
  and visitObjectFields :: "(string \<times> ValueNode) list \<Rightarrow> NullTable \<Rightarrow> NullTable"
where
  "visitValue (Variable v) vars = assignNull v vars"
| "visitValue (ListValue vs) vars = visitValues vs vars"
| "visitValue (ObjectValue fs) vars = visitObjectFields fs vars"
| "visitValue (IntValue t) vars = vars"
| "visitValue (FloatValue t) vars = vars"
| "visitValue (StringValue t) vars = vars"
| "visitValue (BooleanValue b) vars = vars"
| "visitValue NullValue vars = vars"
| "visitValue (EnumValue t) vars = vars"
| "visitValues [] vars = vars"
| "visitValues (v # vs) vars = visitValues vs (visitValue v vars)"
| "visitObjectFields [] vars = vars"
| "visitObjectFields ((k, v) # fs) vars = visitObjectFields fs (visitValue v vars)"

definition visitArguments :: "ArgumentNode list \<Rightarrow> NullTable \<Rightarrow> NullTable" where
  "visitArguments as vars = visitValues (map argValue as) vars"

text \<open>The \<open>Directive\<close> visitor, and the walk into a directive it keeps.\<close>

definition visitDirective ::
  "DirectiveNode \<Rightarrow> NormalizerState \<Rightarrow> error + (DirectiveNode option \<times> NormalizerState)" where
  "visitDirective node s =
     (if dirName node = ''argumentDefinitions'' then
        (if argumentDefinitions s \<noteq> None then Inl DuplicateArgumentDefinitions
         else Inr (None, s\<lparr>argumentDefinitions := dirArguments node\<rparr>))
      else if dirName node = ''connection'' then Inr (None, s)
      else Inr (Some node,
                s\<lparr>variables :=
                    visitArguments (case dirArguments node of None \<Rightarrow> [] | Some as \<Rightarrow> as)
                      (variables s)\<rparr>))"

fun visitDirectives ::
  "DirectiveNode list \<Rightarrow> NormalizerState \<Rightarrow> error + (DirectiveNode list \<times> NormalizerState)" where
  "visitDirectives [] s = Inr ([], s)"
| "visitDirectives (d # ds) s =
     bind (visitDirective d s) (\<lambda>(d', s1).
     bind (visitDirectives ds s1) (\<lambda>(ds', s2).
       Inr ((case d' of None \<Rightarrow> ds' | Some kept \<Rightarrow> kept # ds'), s2)))"

text \<open>The body of the \<open>case 'arguments'\<close> loop over the directive's arguments.\<close>

fun convertArguments ::
  "ArgumentNode list \<Rightarrow> (string \<times> Printable option) list \<Rightarrow> NullTable
     \<Rightarrow> error + ((string \<times> Printable option) list \<times> NullTable)" where
  "convertArguments [] obj vars = Inr (obj, vars)"
| "convertArguments (argNode # rest) obj vars =
     (let vars1 = (case argValue argNode of Variable v \<Rightarrow> assignNull v vars | _ \<Rightarrow> vars)
      in bind (convertArgument argNode) (\<lambda>(n, ast).
           convertArguments rest (assignObject n (Some ast) obj) vars1))"

text \<open>
  The end of the \<open>FragmentSpread\<close> visitor, from \<open>if (!substitutionName)\<close> on. The slot is
  written by \<open>fragments[substitutionName] = {...}\<close>, so a spread named \<open>__proto__\<close> is
  renamed like any other but leaves no slot in the table.
\<close>

definition registerSpread ::
  "string \<Rightarrow> string \<Rightarrow> Printable option \<Rightarrow> bool \<Rightarrow> NormalizerState
     \<Rightarrow> error + (SelectionNode \<times> NormalizerState)" where
  "registerSpread substitutionName fragmentName fragmentArgumentsAST masked s =
     (if substitutionName = [] then Inl MissingSubstitutionName
      else Inr (FragmentSpreadNode substitutionName (Some []),
                s\<lparr>fragments :=
                    assignObject substitutionName
                      \<lparr> fragment_name = fragmentName, fragment_isMasked = masked,
                        fragment_args = fragmentArgumentsAST \<rparr>
                      (fragments s)\<rparr>))"

text \<open>The \<open>FragmentSpread\<close> visitor.\<close>

definition visitFragmentSpread ::
  "string \<Rightarrow> DirectiveNode list option \<Rightarrow> NormalizerState
     \<Rightarrow> error + (SelectionNode \<times> NormalizerState)" where
  "visitFragmentSpread fragmentName nodeDirectives s =
     (case (case nodeDirectives of None \<Rightarrow> [] | Some ds \<Rightarrow> ds) of
        [] \<Rightarrow> registerSpread fragmentName fragmentName None True s
      | directive # others \<Rightarrow>
          if others \<noteq> [] then Inl ConflictingSpreadDirectives
          else if dirName directive = ''arguments'' then
            bind (convertArguments (case dirArguments directive of None \<Rightarrow> [] | Some as \<Rightarrow> as)
                    [] (variables s)) (\<lambda>(obj, vars).
              let s1 = s\<lparr>variables := vars, fragmentID := fragmentID s + 1\<rparr>
              in registerSpread (fragmentName @ ''_args'' @ string_of_nat (fragmentID s1))
                   fragmentName (Some (createObject obj)) True s1)
          else if dirName directive = ''relay'' then
            (case dirArguments directive of
               None \<Rightarrow> Inl InvalidRelayDirective
             | Some [] \<Rightarrow> Inl TypeError
             | Some [a] \<Rightarrow>
                 if argName a \<noteq> ''mask'' then Inl InvalidRelayDirective
                 else registerSpread fragmentName fragmentName None
                        (argValue a \<noteq> BooleanValue False) s
             | Some (a # b # rest) \<Rightarrow> Inl InvalidRelayDirective)
          else Inl UnsupportedSpreadDirective)"

fun visitSelection ::
      "SelectionNode \<Rightarrow> NormalizerState \<Rightarrow> error + (SelectionNode \<times> NormalizerState)"
  and visitSelections ::
      "SelectionNode list \<Rightarrow> NormalizerState \<Rightarrow> error + (SelectionNode list \<times> NormalizerState)"
where
  "visitSelection (FieldNode al n as ds sels) s =
     bind (visitDirectives ds (s\<lparr>variables := visitArguments as (variables s)\<rparr>)) (\<lambda>(ds', s1).
     bind (visitSelections sels s1) (\<lambda>(sels', s2).
       Inr (FieldNode al n as ds' sels', s2)))"
| "visitSelection (FragmentSpreadNode n ds) s = visitFragmentSpread n ds s"
| "visitSelection (InlineFragmentNode tc ds sels) s =
     bind (visitDirectives ds s) (\<lambda>(ds', s1).
     bind (visitSelections sels s1) (\<lambda>(sels', s2).
       Inr (InlineFragmentNode tc ds' sels', s2)))"
| "visitSelections [] s = Inr ([], s)"
| "visitSelections (sel # rest) s =
     bind (visitSelection sel s) (\<lambda>(sel', s1).
     bind (visitSelections rest s1) (\<lambda>(rest', s2).
       Inr (sel' # rest', s2)))"

fun visitVariableDefinitions ::
  "VariableDefinitionNode list \<Rightarrow> NormalizerState
     \<Rightarrow> error + (VariableDefinitionNode list \<times> NormalizerState)" where
  "visitVariableDefinitions [] s = Inr ([], s)"
| "visitVariableDefinitions (vd # vds) s =
     (let vars1 = assignNull (vdVariable vd) (variables s);
          vars2 = (case vdDefaultValue vd of None \<Rightarrow> vars1 | Some v \<Rightarrow> visitValue v vars1)
      in bind (visitDirectives (vdDirectives vd) (s\<lparr>variables := vars2\<rparr>)) (\<lambda>(ds', s1).
         bind (visitVariableDefinitions vds s1) (\<lambda>(vds', s2).
           Inr (VariableDefinitionNode (vdVariable vd) (vdType vd) (vdDefaultValue vd) ds' # vds',
                s2))))"

fun visitDefinition ::
  "DefinitionNode \<Rightarrow> NormalizerState \<Rightarrow> error + (DefinitionNode \<times> NormalizerState)" where
  "visitDefinition (OperationDefinition operation opName vds ds sels) s =
     bind (visitVariableDefinitions vds s) (\<lambda>(vds', s1).
     bind (visitDirectives ds s1) (\<lambda>(ds', s2).
     bind (visitSelections sels s2) (\<lambda>(sels', s3).
       Inr (OperationDefinition operation opName vds' ds' sels', s3))))"
| "visitDefinition (FragmentDefinition fragName typeCondition ds sels) s =
     bind (visitDirectives ds s) (\<lambda>(ds', s1).
     bind (visitSelections sels s1) (\<lambda>(sels', s2).
       Inr (FragmentDefinition fragName typeCondition ds' sels', s2)))"

record ClassicAST =
  classicAST :: DefinitionNode
  resultFragments :: "(string \<times> Fragment) list"
  resultVariables :: NullTable
  resultArgumentDefinitions :: "ArgumentNode list option"

definition createClassicAST :: "DefinitionNode \<Rightarrow> error + ClassicAST" where
  "createClassicAST definition =
     bind (visitDefinition definition initialState) (\<lambda>(ast, s).
       Inr \<lparr> classicAST = ast, resultFragments = fragments s,
             resultVariables = variables s,
             resultArgumentDefinitions = argumentDefinitions s \<rparr>)"

section \<open>The printer: RelayQLPrinter\<close>

subsection \<open>Options and the table of well-known field names\<close>

record PrinterOptions =
  inputArgumentName :: "string option"
  snakeCase :: bool

definition upperToLower :: "char \<Rightarrow> char option" where
  "upperToLower = map_of (zip ''ABCDEFGHIJKLMNOPQRSTUVWXYZ'' ''abcdefghijklmnopqrstuvwxyz'')"

text \<open>\<open>name.replace(/[A-Z]/g, letter => '_' + letter.toLowerCase())\<close>\<close>

definition snakeCaseName :: "string \<Rightarrow> string" where
  "snakeCaseName fieldName =
     concat (map (\<lambda>c. case upperToLower c of None \<Rightarrow> [c] | Some l \<Rightarrow> [CHR ''_'', l]) fieldName)"

text \<open>
  \<open>FIELDS\<close>: every key of the table is its own value, passed through \<open>formatFields\<close>.
  \<open>FIELDS options ''pageInfo''\<close> stands for \<open>FIELDS.pageInfo\<close>.
\<close>

definition FIELDS :: "PrinterOptions \<Rightarrow> string \<Rightarrow> string" where
  "FIELDS options key = (if snakeCase options then snakeCaseName key else key)"

text \<open>\<open>options.inputArgumentName || 'input'\<close>: null and the empty string give the default.\<close>

definition INPUT_ARGUMENT_NAME :: "PrinterOptions \<Rightarrow> string" where
  "INPUT_ARGUMENT_NAME options =
     (case inputArgumentName options of
        None \<Rightarrow> ''input''
      | Some n \<Rightarrow> if n = [] then ''input'' else n)"

text \<open>
  Modelled from the spec: the constant \<open>ID\<close> imported from RelayQLNodeInterface, the name of
  the identity field (the spec writes the rejected field as \<open>node(id: ID)\<close>).
\<close>

definition ID :: string where
  "ID = ''id''"

subsection \<open>The RelayQL AST and the schema facade\<close>

text \<open>
  The classes of RelayQLAST.ts are outside the sources; the printer reads them through
  their methods only. A node of the model holds what those methods return.
\<close>

datatype JSValue =
    JSNull
  | JSBoolean bool
  | JSNumber int
  | JSString string
  | JSArray "JSValue list"
  | JSObject "(string \<times> JSValue) list"

datatype RelayQLArgumentType =
  RelayQLArgumentType (argType_getName: string) (argType_isBoolean: bool)
    (argType_isID: bool) (argType_isString: bool)

text \<open>
  An argument is a variable (\<open>isVariable()\<close>, \<open>getVariableName()\<close>) or has a value
  (\<open>getValue()\<close>): a scalar, or for a list an array of arguments.
\<close>

datatype RelayQLArgument =
  RelayQLArgument (arg_getName: string) (arg_getType: RelayQLArgumentType)
    (arg_content: ArgumentContent)
and ArgumentContent =
    VariableReference string
  | ScalarValue JSValue
  | ListOfArguments "RelayQLArgument list"

datatype RelayQLDirective =
  RelayQLDirective (directive_getName: string) (directive_getArguments: "RelayQLArgument list")

record RelayQLType =
  typeName :: string
  typeNameWithModifiers :: string
  isAbstract :: bool
  isList :: bool
  isConnection :: bool
  isConnectionEdge :: bool
  isConnectionPageInfo :: bool
  canHaveSubselections :: bool
  isQueryType :: bool
  mayImplementNode :: bool
  alwaysImplementsNode :: bool
  identifyingFieldName :: "string option"

record FieldInfo =
  field_getName :: string
  field_getAlias :: "string option"
  field_getType :: RelayQLType
  field_getArguments :: "RelayQLArgument list"
  field_getDeclaredArguments :: "(string \<times> RelayQLArgumentType) list"
  field_getDirectives :: "RelayQLDirective list"
  field_isPattern :: bool

record FragmentInfo =
  fragment_getName :: string
  fragment_getType :: RelayQLType
  fragment_getDirectives :: "RelayQLDirective list"

datatype RelayQLSelection =
    RelayQLField FieldInfo "RelayQLSelection list"
  | RelayQLFragmentSpread string "RelayQLDirective list"
  | RelayQLInlineFragment FragmentInfo "RelayQLSelection list"

type_synonym RelayQLFieldNode = "FieldInfo \<times> RelayQLSelection list"
type_synonym RelayQLFragment = "FragmentInfo \<times> RelayQLSelection list"

datatype RelayQLDefinition =
    RelayQLQuery string "RelayQLFieldNode list"
  | RelayQLFragmentDefinition RelayQLFragment
  | RelayQLMutation string "RelayQLFieldNode list" "RelayQLDirective list"
  | RelayQLSubscription string "RelayQLFieldNode list" "RelayQLDirective list"

text \<open>
  The lookups of the schema facade that lead from one type to another:
  \<open>getFieldDefinition(name).getType()\<close> (\<open>None\<close> when the type has no such field), the
  declared arguments of that field definition, and \<open>generateIdFragment()\<close>.
\<close>

record Schema =
  getFieldType :: "RelayQLType \<Rightarrow> string \<Rightarrow> RelayQLType option"
  getFieldArguments :: "RelayQLType \<Rightarrow> string \<Rightarrow> (string \<times> RelayQLArgumentType) list"
  generateIdFragment :: "RelayQLType \<Rightarrow> RelayQLFragment"

definition hasField :: "Schema \<Rightarrow> RelayQLType \<Rightarrow> string \<Rightarrow> bool" where
  "hasField sch t fieldName = (getFieldType sch t fieldName \<noteq> None)"

text \<open>
  Modelled from the spec: \<open>generateField(name)\<close> of the Schema Facade, which RelayQLAST.ts
  implements: the field of that name as the printer adds it for a requisite field, with no
  alias, arguments, directives or selections, typed by the schema. A name the type does
  not declare has no type to print.
\<close>

definition generateField :: "Schema \<Rightarrow> RelayQLType \<Rightarrow> string \<Rightarrow> error + RelayQLFieldNode" where
  "generateField sch parentType fieldName =
     (case getFieldType sch parentType fieldName of
        None \<Rightarrow> Inl TypeError
      | Some t \<Rightarrow>
          Inr (\<lparr> field_getName = fieldName, field_getAlias = None, field_getType = t,
                 field_getArguments = [],
                 field_getDeclaredArguments = getFieldArguments sch parentType fieldName,
                 field_getDirectives = [], field_isPattern = False \<rparr>, []))"

text \<open>
  The fields of the printer. \<open>variableNames\<close> is an object whose keys are the names of the
  substitution variables and whose values are all \<open>undefined\<close>; it is given by the list of
  its own keys, and it inherits from \<open>Object.prototype\<close> as an object literal does.
\<close>

record PrinterEnv =
  options :: PrinterOptions
  schema :: Schema
  tagName :: string
  variableNames :: "string list"

definition findArgument :: "FieldInfo \<Rightarrow> string \<Rightarrow> RelayQLArgument option" where
  "findArgument field n = find (\<lambda>a. arg_getName a = n) (field_getArguments field)"

definition hasArgument :: "FieldInfo \<Rightarrow> string \<Rightarrow> bool" where
  "hasArgument field n = (findArgument field n \<noteq> None)"

definition hasDeclaredArgument :: "FieldInfo \<Rightarrow> string \<Rightarrow> bool" where
  "hasDeclaredArgument field n = hasOwnProperty (field_getDeclaredArguments field) n"

definition isVariable :: "RelayQLArgument \<Rightarrow> bool" where
  "isVariable a = (case arg_content a of VariableReference v \<Rightarrow> True | _ \<Rightarrow> False)"

subsection \<open>Literals, codify, objectify\<close>

definition NULL :: Printable where
  "NULL = NullLiteral SharedNULL"

definition EMPTY_ARRAY :: Printable where
  "EMPTY_ARRAY = ArrayLiteralExpression []"

definition createLiteral :: "JSValue \<Rightarrow> error + Printable" where
  "createLiteral v =
     (case v of
        JSString t \<Rightarrow> Inr (StringLiteral t)
      | JSNumber i \<Rightarrow> Inr (NumericLiteral (FromNumber i))
      | JSBoolean b \<Rightarrow> Inr (if b then TrueLiteral else FalseLiteral)
      | JSNull \<Rightarrow> Inr (NullLiteral FreshNull)
      | _ \<Rightarrow> Inl TypeError)"

definition codify :: "(string \<times> Printable) list \<Rightarrow> Printable" where
  "codify obj = ObjectLiteralExpression (filter (\<lambda>kv. snd kv \<noteq> NULL) obj)"

text \<open>JavaScript truthiness, as \<open>if (value)\<close> tests it.\<close>

fun truthy :: "JSValue \<Rightarrow> bool" where
  "truthy JSNull = False"
| "truthy (JSBoolean b) = b"
| "truthy (JSNumber i) = (i \<noteq> 0)"
| "truthy (JSString t) = (t \<noteq> [])"
| "truthy (JSArray vs) = True"
| "truthy (JSObject kvs) = True"

definition objectify :: "(string \<times> JSValue) list \<Rightarrow> error + Printable" where
  "objectify obj =
     bind (mapM (\<lambda>kv. bind (createLiteral (snd kv)) (\<lambda>l. Inr (fst kv, l)))
             (filter (\<lambda>kv. truthy (snd kv)) obj))
       (\<lambda>properties. Inr (ObjectLiteralExpression properties))"

fun splitOn :: "char \<Rightarrow> string \<Rightarrow> string list" where
  "splitOn c [] = [[]]"
| "splitOn c (x # xs) =
     (if x = c then [] # splitOn c xs
      else (case splitOn c xs of [] \<Rightarrow> [[x]] | w # ws \<Rightarrow> (x # w) # ws))"

text \<open>\<open>str.split('.')\<close> is never empty, so the reduction always ends on an expression.\<close>

definition identify :: "string \<Rightarrow> Printable" where
  "identify str =
     (case splitOn CHR ''.'' str of
        [] \<Rightarrow> Identifier []
      | n # ns \<Rightarrow> foldl (\<lambda>acc part. PropertyAccessExpression acc part) (Identifier n) ns)"

fun printLiteralValue :: "JSValue \<Rightarrow> error + Printable"
  and printLiteralValues :: "JSValue list \<Rightarrow> error + Printable list"
  and printLiteralProperties :: "(string \<times> JSValue) list \<Rightarrow> error + (string \<times> Printable) list"
where
  "printLiteralValue JSNull = Inr NULL"
| "printLiteralValue (JSArray vs) =
     bind (printLiteralValues vs) (\<lambda>es. Inr (ArrayLiteralExpression es))"
| "printLiteralValue (JSObject kvs) =
     bind (printLiteralProperties kvs) (\<lambda>ps. Inr (ObjectLiteralExpression ps))"
| "printLiteralValue (JSBoolean b) = createLiteral (JSBoolean b)"
| "printLiteralValue (JSNumber i) = createLiteral (JSNumber i)"
| "printLiteralValue (JSString t) = createLiteral (JSString t)"
| "printLiteralValues [] = Inr []"
| "printLiteralValues (v # vs) =
     bind (printLiteralValue v) (\<lambda>e. bind (printLiteralValues vs) (\<lambda>es. Inr (e # es)))"
| "printLiteralProperties [] = Inr []"
| "printLiteralProperties ((k, v) # kvs) =
     bind (printLiteralValue v) (\<lambda>e. bind (printLiteralProperties kvs) (\<lambda>ps. Inr ((k, e) # ps)))"

definition shallowFlatten :: "Printable \<Rightarrow> Printable" where
  "shallowFlatten arr =
     CallExpression
       (PropertyAccessExpression (PropertyAccessExpression EMPTY_ARRAY ''concat'') ''apply'')
       [EMPTY_ARRAY, arr]"

definition findRelayDirective :: "RelayQLDirective list \<Rightarrow> RelayQLDirective option" where
  "findRelayDirective directives = find (\<lambda>d. directive_getName d = ''relay'') directives"

subsection \<open>Arguments, values and directives\<close>

text \<open>
  \<open>this.variableNames.hasOwnProperty(name)\<close> looks the method up on the object itself
  first: when one of the substitution variables is named \<open>hasOwnProperty\<close> the own
  property, whose value is \<open>undefined\<close>, hides the inherited method and the call throws a
  \<open>TypeError\<close>.
\<close>

definition printVariable :: "PrinterEnv \<Rightarrow> string \<Rightarrow> error + Printable" where
  "printVariable env n =
     (if ''hasOwnProperty'' \<in> set (variableNames env) then Inl TypeError
      else if n \<in> set (variableNames env) then
        Inr (CallExpression (PropertyAccessExpression (identify (tagName env)) ''__var'')
               [Identifier n])
      else Inr (codify [(''kind'', StringLiteral ''CallVariable''),
                        (''callVariableName'', StringLiteral n)]))"

text \<open>
  \<open>printValue\<close> maps \<open>printArgumentValue\<close> over any array; an array whose elements are
  not arguments has no \<open>isVariable\<close> method to call.
\<close>

fun printArgumentValue :: "PrinterEnv \<Rightarrow> RelayQLArgument \<Rightarrow> error + Printable"
  and printValue :: "PrinterEnv \<Rightarrow> ArgumentContent \<Rightarrow> error + Printable"
  and printArgumentValues :: "PrinterEnv \<Rightarrow> RelayQLArgument list \<Rightarrow> error + Printable list"
where
  "printArgumentValue env (RelayQLArgument n t c) =
     (case c of VariableReference v \<Rightarrow> printVariable env v | _ \<Rightarrow> printValue env c)"
| "printValue env (ListOfArguments elements) =
     bind (printArgumentValues env elements) (\<lambda>es. Inr (ArrayLiteralExpression es))"
| "printValue env (ScalarValue v) =
     (case v of
        JSArray vs \<Rightarrow> (if vs = [] then Inr (ArrayLiteralExpression []) else Inl TypeError)
      | JSNull \<Rightarrow> Inr (codify [(''kind'', StringLiteral ''CallValue''),
                                (''callValue'', NullLiteral FreshNull)])
      | _ \<Rightarrow> bind (printLiteralValue v) (\<lambda>l.
               Inr (codify [(''kind'', StringLiteral ''CallValue''), (''callValue'', l)])))"
| "printValue env (VariableReference v) = Inl TypeError"
| "printArgumentValues env [] = Inr []"
| "printArgumentValues env (a # as) =
     bind (printArgumentValue env a) (\<lambda>e.
     bind (printArgumentValues env as) (\<lambda>es. Inr (e # es)))"

definition printArgumentTypeForMetadata :: "RelayQLArgumentType \<Rightarrow> string option" where
  "printArgumentTypeForMetadata argType =
     (if argType_isBoolean argType \<or> argType_isID argType \<or> argType_isString argType then None
      else Some (argType_getName argType))"

definition printArgument :: "PrinterEnv \<Rightarrow> RelayQLArgument \<Rightarrow> error + Printable" where
  "printArgument env a =
     (let metadata = (case printArgumentTypeForMetadata (arg_getType a) of
                        None \<Rightarrow> []
                      | Some inputType \<Rightarrow>
                          if inputType = [] then [] else [(''type'', JSString inputType)])
      in bind (objectify metadata) (\<lambda>md.
         bind (printArgumentValue env a) (\<lambda>v.
           Inr (codify [(''kind'', StringLiteral ''Call''), (''metadata'', md),
                        (''name'', StringLiteral (arg_getName a)), (''value'', v)]))))"

text \<open>The body of the loop of \<open>printDirectives\<close> for a directive other than \<open>@relay\<close>.\<close>

definition printDirective :: "PrinterEnv \<Rightarrow> RelayQLDirective \<Rightarrow> error + Printable" where
  "printDirective env directive =
     bind (mapM (\<lambda>a. bind (printArgumentValue env a) (\<lambda>v.
                   Inr (ObjectLiteralExpression
                          [(''name'', StringLiteral (arg_getName a)), (''value'', v)])))
             (directive_getArguments directive)) (\<lambda>printedArgs.
       Inr (ObjectLiteralExpression
              [(''kind'', StringLiteral ''Directive''),
               (''name'', StringLiteral (directive_getName directive)),
               (''args'', ArrayLiteralExpression printedArgs)]))"

definition printDirectives :: "PrinterEnv \<Rightarrow> RelayQLDirective list \<Rightarrow> error + Printable" where
  "printDirectives env directives =
     bind (mapM (printDirective env) (filter (\<lambda>d. directive_getName d \<noteq> ''relay'') directives))
       (\<lambda>printedDirectives.
          Inr (if printedDirectives \<noteq> [] then ArrayLiteralExpression printedDirectives else NULL))"

text \<open>
  One step of the loop over the \<open>@relay\<close> directive's arguments: a variable is an error,
  \<open>variables\<close> is skipped, any other argument gives a property.
\<close>

definition relayDirectiveProperty :: "RelayQLArgument \<Rightarrow> error + (string \<times> Printable) list" where
  "relayDirectiveProperty a =
     (case arg_content a of
        VariableReference v \<Rightarrow> Inl RelayVariableArgument
      | ScalarValue v \<Rightarrow>
          if arg_getName a \<noteq> ''variables''
          then bind (createLiteral v) (\<lambda>l. Inr [(arg_getName a, l)]) else Inr []
      | ListOfArguments elements \<Rightarrow>
          if arg_getName a \<noteq> ''variables'' then Inl TypeError else Inr [])"

definition printRelayDirectiveMetadata ::
  "RelayQLDirective list \<Rightarrow> (string \<times> JSValue) list option \<Rightarrow> error + Printable" where
  "printRelayDirectiveMetadata directives maybeMetadata =
     bind (case findRelayDirective directives of
             None \<Rightarrow> Inr []
           | Some relayDirective \<Rightarrow>
               bind (mapM relayDirectiveProperty (directive_getArguments relayDirective))
                 (\<lambda>ps. Inr (concat ps))) (\<lambda>fromDirective.
     bind (case maybeMetadata of
             None \<Rightarrow> Inr []
           | Some metadata \<Rightarrow>
               mapM (\<lambda>kv. bind (createLiteral (snd kv)) (\<lambda>l. Inr (fst kv, l))) metadata)
       (\<lambda>fromMetadata.
         Inr (ObjectLiteralExpression (fromDirective @ fromMetadata))))"

subsection \<open>Structural validation\<close>

definition shouldGenerateIdFragment :: "RelayQLType \<Rightarrow> RelayQLSelection list \<Rightarrow> bool" where
  "shouldGenerateIdFragment nodeType selections =
     (mayImplementNode nodeType \<and>
      \<not> list_ex (\<lambda>selection. case selection of
                    RelayQLInlineFragment fragment sels \<Rightarrow>
                      typeName (fragment_getType fragment) = ''Node''
                  | _ \<Rightarrow> False) selections)"

definition validateField :: "FieldInfo \<Rightarrow> RelayQLType \<Rightarrow> error + unit" where
  "validateField field parentType =
     (if field_getName field = ''node'' then
        (let argNames = map fst (field_getDeclaredArguments field)
         in if \<not> isQueryType parentType \<and> length argNames = 1 \<and> take 1 argNames = [ID]
            then Inl MisplacedNodeField else Inr ())
      else Inr ())"

fun forEachRecursiveField ::
  "(FieldInfo \<Rightarrow> error + unit) \<Rightarrow> RelayQLSelection list \<Rightarrow> error + unit" where
  "forEachRecursiveField callback [] = Inr ()"
| "forEachRecursiveField callback (RelayQLField field sels # rest) =
     bind (callback field) (\<lambda>u. forEachRecursiveField callback rest)"
| "forEachRecursiveField callback (RelayQLInlineFragment fragment sels # rest) =
     bind (forEachRecursiveField callback sels) (\<lambda>u. forEachRecursiveField callback rest)"
| "forEachRecursiveField callback (RelayQLFragmentSpread n ds # rest) =
     forEachRecursiveField callback rest"

definition argIsVariable :: "RelayQLArgument option \<Rightarrow> bool" where
  "argIsVariable a = (case a of None \<Rightarrow> False | Some x \<Rightarrow> isVariable x)"

text \<open>The callback \<open>validateConnectionField\<close> runs on every nested field.\<close>

definition validateConnectionSubfield ::
  "PrinterEnv \<Rightarrow> FieldInfo \<Rightarrow> RelayQLType \<Rightarrow> FieldInfo \<Rightarrow> error + unit" where
  "validateConnectionSubfield env field connectionNodeType subfield =
     (if field_getName subfield = FIELDS (options env) ''edges'' \<or>
         field_getName subfield = FIELDS (options env) ''pageInfo'' then
        (let hasCondition = (field_isPattern field \<or> hasArgument field ''find'' \<or>
                             hasArgument field ''first'' \<or> hasArgument field ''last'')
         in if \<not> hasCondition then Inl MissingPaginationArgument else Inr ())
      else
        (let subfieldType = field_getType subfield;
             isNodesLikeField = (isList subfieldType \<and>
                                 typeName subfieldType = typeName connectionNodeType)
         in if isNodesLikeField then Inl UseEdgesNodeInstead else Inr ()))"

definition validateConnectionField :: "PrinterEnv \<Rightarrow> RelayQLFieldNode \<Rightarrow> error + unit" where
  "validateConnectionField env fieldNode =
     (let field = fst fieldNode;
          first = findArgument field ''first'';
          last = findArgument field ''last'';
          before = findArgument field ''before'';
          after = findArgument field ''after''
      in if \<not> (first = None \<or> last = None \<or> (argIsVariable first \<and> argIsVariable last))
         then Inl ConflictingPaginationArguments
         else if \<not> (first = None \<or> before = None \<or> (argIsVariable first \<and> argIsVariable before))
         then Inl ConflictingPaginationArguments
         else if \<not> (last = None \<or> after = None \<or> (argIsVariable last \<and> argIsVariable after))
         then Inl ConflictingPaginationArguments
         else
           (case getFieldType (schema env) (field_getType field) (FIELDS (options env) ''edges'') of
              None \<Rightarrow> Inl TypeError
            | Some edgeType \<Rightarrow>
                (case getFieldType (schema env) edgeType (FIELDS (options env) ''node'') of
                   None \<Rightarrow> Inl TypeError
                 | Some connectionNodeType \<Rightarrow>
                     forEachRecursiveField
                       (validateConnectionSubfield env field connectionNodeType)
                       (snd fieldNode))))"

definition validateMutationField :: "PrinterEnv \<Rightarrow> FieldInfo \<Rightarrow> error + unit" where
  "validateMutationField env rootField =
     (let declaredArgNames = map fst (field_getDeclaredArguments rootField)
      in if length declaredArgNames \<noteq> 1 then Inl WrongMutationArgumentShape
         else if take 1 declaredArgNames \<noteq> [INPUT_ARGUMENT_NAME (options env)]
         then Inl WrongMutationArgumentShape
         else if length (field_getArguments rootField) > 1 then Inl WrongMutationArgumentShape
         else Inr ())"

subsection \<open>Fields, selections and fragments\<close>

definition printFragmentID :: "PrinterEnv \<Rightarrow> Printable" where
  "printFragmentID env =
     CallExpression (PropertyAccessExpression (identify (tagName env)) ''__id'') []"

definition printFragmentReference :: "PrinterEnv \<Rightarrow> string \<Rightarrow> Printable" where
  "printFragmentReference env fragmentName =
     CallExpression (PropertyAccessExpression (identify (tagName env)) ''__frag'')
       [Identifier fragmentName]"

text \<open>
  The \<open>requisiteFields\<close> object and the \<open>idFragment\<close> that \<open>printFragment\<close> and
  \<open>printField\<close> build for their own selection set (\<open>extraFragments\<close> is \<open>[idFragment]\<close> or
  null, here the empty list).
\<close>

definition idFragmentFor ::
  "PrinterEnv \<Rightarrow> RelayQLType \<Rightarrow> RelayQLSelection list \<Rightarrow> RelayQLFragment list" where
  "idFragmentFor env nodeType selections =
     (if hasField (schema env) nodeType ID then []
      else if shouldGenerateIdFragment nodeType selections
      then [generateIdFragment (schema env) nodeType] else [])"

definition fragmentRequisiteFields :: "PrinterEnv \<Rightarrow> RelayQLType \<Rightarrow> (string \<times> bool) list" where
  "fragmentRequisiteFields env fragmentType =
     (let r0 = (if hasField (schema env) fragmentType ID then objSet ID True [] else [])
      in if isAbstract fragmentType then objSet (FIELDS (options env) ''__typename'') True r0
         else r0)"

definition fieldRequisiteFields :: "PrinterEnv \<Rightarrow> RelayQLType \<Rightarrow> (string \<times> bool) list" where
  "fieldRequisiteFields env fieldType =
     (let r0 = (if hasField (schema env) fieldType ID then objSet ID True [] else []);
          r1 = (if isConnection fieldType then r0
                else if isConnectionPageInfo fieldType then
                  objSet (FIELDS (options env) ''hasPreviousPage'') True
                    (objSet (FIELDS (options env) ''hasNextPage'') True r0)
                else if isConnectionEdge fieldType then
                  objSet (FIELDS (options env) ''node'') True
                    (objSet (FIELDS (options env) ''cursor'') True r0)
                else r0)
      in if isAbstract fieldType then objSet (FIELDS (options env) ''__typename'') True r1
         else r1)"

text \<open>
  The \<open>metadata\<close> object of \<open>printField\<close>: every assignment \<open>metadata.key = value\<close> of the
  method in source order, with the condition it stands under; the object holds the
  entries whose condition is true.
\<close>

definition fieldMetadataAssignments ::
  "FieldInfo \<Rightarrow> (string \<times> bool) list \<Rightarrow> (string \<times> bool) list
     \<Rightarrow> (string \<times> JSValue \<times> bool) list" where
  "fieldMetadataAssignments field requisiteSiblings generatedSiblings =
     (let fieldType = field_getType field;
          paginated = (isConnection fieldType \<and>
                       (hasDeclaredArgument field ''first'' \<or> hasDeclaredArgument field ''last''))
      in [(''canHaveSubselections'', JSBoolean True, canHaveSubselections fieldType),
          (''inferredRootCallName'', JSString ''node'', alwaysImplementsNode fieldType),
          (''inferredPrimaryKey'', JSString ID, alwaysImplementsNode fieldType),
          (''isConnection'', JSBoolean True, paginated),
          (''isFindable'', JSBoolean True, paginated \<and> hasDeclaredArgument field ''find''),
          (''isAbstract'', JSBoolean True, isAbstract fieldType),
          (''isPlural'', JSBoolean True, isList fieldType),
          (''isGenerated'', JSBoolean True,
             hasOwnProperty generatedSiblings (field_getName field)),
          (''isRequisite'', JSBoolean True,
             hasOwnProperty requisiteSiblings (field_getName field))])"

definition fieldMetadata ::
  "FieldInfo \<Rightarrow> (string \<times> bool) list \<Rightarrow> (string \<times> bool) list \<Rightarrow> (string \<times> JSValue) list" where
  "fieldMetadata field requisiteSiblings generatedSiblings =
     map (\<lambda>a. (fst a, fst (snd a)))
       (filter (\<lambda>a. snd (snd a))
          (fieldMetadataAssignments field requisiteSiblings generatedSiblings))"

text \<open>
  The second argument of \<open>__createFragment\<close>: one property per item of the \<open>variables\<close>
  argument of \<open>@relay\<close>. An item that is not an argument holding a string has no
  \<open>getValue\<close> result usable as a property name.
\<close>

definition printSelectVariables ::
  "PrinterEnv \<Rightarrow> RelayQLArgument \<Rightarrow> error + (string \<times> Printable) list" where
  "printSelectVariables env selectVariables =
     (case arg_content selectVariables of
        ListOfArguments items \<Rightarrow>
          mapM (\<lambda>item. case arg_content item of
                         ScalarValue (JSString v) \<Rightarrow>
                           bind (printVariable env v) (\<lambda>printed. Inr (v, printed))
                       | _ \<Rightarrow> Inl TypeError) items
      | ScalarValue (JSArray vs) \<Rightarrow> (if vs = [] then Inr [] else Inl TypeError)
      | ScalarValue v \<Rightarrow> Inl VariablesNotArray
      | VariableReference v \<Rightarrow> Inl TypeError)"

text \<open>
  The field list of \<open>printFields\<close>: each requested field with the \<open>generatedFields\<close>
  object as it stands when the field is printed, just after \<open>delete
  generatedFields[field.getName()]\<close>.
\<close>

fun fieldsWithGenerated ::
  "RelayQLFieldNode list \<Rightarrow> (string \<times> bool) list
     \<Rightarrow> (RelayQLFieldNode \<times> (string \<times> bool) list) list" where
  "fieldsWithGenerated [] generatedFields = []"
| "fieldsWithGenerated (field # rest) generatedFields =
     (let g = objDelete (field_getName (fst field)) generatedFields
      in (field, g) # fieldsWithGenerated rest g)"

definition remainingGenerated ::
  "RelayQLFieldNode list \<Rightarrow> (string \<times> bool) list \<Rightarrow> (string \<times> bool) list" where
  "remainingGenerated fieldNodes generatedFields =
     foldl (\<lambda>g field. objDelete (field_getName (fst field)) g) generatedFields fieldNodes"

definition selectedFields :: "RelayQLSelection list \<Rightarrow> RelayQLFieldNode list" where
  "selectedFields selections =
     concat (map (\<lambda>selection. case selection of
                    RelayQLField field sels \<Rightarrow> [(field, sels)] | _ \<Rightarrow> []) selections)"

definition isFragmentSpread :: "RelayQLSelection \<Rightarrow> bool" where
  "isFragmentSpread selection =
     (case selection of RelayQLFragmentSpread n ds \<Rightarrow> True | _ \<Rightarrow> False)"

text \<open>
  The four printing methods call each other, and a generated field or id fragment comes
  from the schema, so the depth of the recursion is not bounded by the definition being
  printed. The model bounds it by a number: \<open>printSelections\<close> of depth \<open>n + 1\<close> prints
  nested selection sets with \<open>printSelections\<close> of depth \<open>n\<close>, and \<open>OutOfFuel\<close> says the
  bound was too small. \<open>printFragmentUsing\<close>, \<open>printFieldUsing\<close> and \<open>printFieldsUsing\<close>
  are the bodies of the three other methods, with the \<open>printSelections\<close> they call as
  first argument.
\<close>

type_synonym SelectionsPrinter =
  "PrinterEnv \<Rightarrow> RelayQLType \<Rightarrow> RelayQLSelection list \<Rightarrow> (string \<times> bool) list
     \<Rightarrow> RelayQLFragment list \<Rightarrow> bool \<Rightarrow> error + Printable"

text \<open>
  \<open>relayDirective && find(relayDirective.getArguments(), arg => arg.getName() ===
  'variables')\<close> in \<open>printFragment\<close>.
\<close>

definition findSelectVariables :: "RelayQLDirective list \<Rightarrow> RelayQLArgument option" where
  "findSelectVariables directives =
     (case findRelayDirective directives of
        None \<Rightarrow> None
      | Some relayDirective \<Rightarrow>
          find (\<lambda>a. arg_getName a = ''variables'') (directive_getArguments relayDirective))"

definition printFragmentUsing ::
  "SelectionsPrinter \<Rightarrow> PrinterEnv \<Rightarrow> RelayQLFragment \<Rightarrow> error + Printable" where
  "printFragmentUsing printSelectionsRec env fragment =
     (let fragmentType = fragment_getType (fst fragment);
          directives = fragment_getDirectives (fst fragment)
      in bind (printSelectionsRec env fragmentType (snd fragment)
                 (fragmentRequisiteFields env fragmentType)
                 (idFragmentFor env fragmentType (snd fragment))
                 (list_ex (\<lambda>d. directive_getName d = ''generated'') directives)) (\<lambda>selections.
         let selectVariables = findSelectVariables directives
         in bind (printRelayDirectiveMetadata directives
                    (Some [(''isAbstract'', JSBoolean (isAbstract fragmentType)),
                           (''isTrackingEnabled'', JSBoolean (selectVariables \<noteq> None))]))
              (\<lambda>metadata.
            bind (printDirectives env directives) (\<lambda>printedDirectives.
            let fragmentCode =
                  codify [(''children'', selections),
                          (''directives'', printedDirectives),
                          (''id'', printFragmentID env),
                          (''kind'', StringLiteral ''Fragment''),
                          (''metadata'', metadata),
                          (''name'', StringLiteral (fragment_getName (fst fragment))),
                          (''type'', StringLiteral (typeName fragmentType))]
            in (case selectVariables of
                  None \<Rightarrow> Inr fragmentCode
                | Some sv \<Rightarrow>
                    bind (printSelectVariables env sv) (\<lambda>properties.
                      Inr (CallExpression
                             (PropertyAccessExpression (identify (tagName env)) ''__createFragment'')
                             [fragmentCode, ObjectLiteralExpression properties])))))))"

definition printFieldUsing ::
  "SelectionsPrinter \<Rightarrow> PrinterEnv \<Rightarrow> RelayQLFieldNode \<Rightarrow> RelayQLType \<Rightarrow> (string \<times> bool) list
     \<Rightarrow> (string \<times> bool) list \<Rightarrow> bool \<Rightarrow> error + Printable" where
  "printFieldUsing printSelectionsRec env field parentType requisiteSiblings generatedSiblings
       isGeneratedQuery =
     (let fieldType = field_getType (fst field)
      in bind (if \<not> isGeneratedQuery then validateField (fst field) parentType else Inr ()) (\<lambda>u.
         bind (if isConnection fieldType \<and>
                  (hasDeclaredArgument (fst field) ''first'' \<or>
                   hasDeclaredArgument (fst field) ''last'') \<and> \<not> isGeneratedQuery
               then validateConnectionField env field else Inr ()) (\<lambda>u.
         bind (printSelectionsRec env fieldType (snd field) (fieldRequisiteFields env fieldType)
                 (idFragmentFor env fieldType (snd field)) isGeneratedQuery) (\<lambda>selections.
         bind (mapM (printArgument env) (field_getArguments (fst field))) (\<lambda>printedArgs.
         bind (printDirectives env (field_getDirectives (fst field))) (\<lambda>printedDirectives.
         bind (printRelayDirectiveMetadata (field_getDirectives (fst field))
                 (Some (fieldMetadata (fst field) requisiteSiblings generatedSiblings)))
           (\<lambda>metadata.
           Inr (codify
                  [(''alias'', case field_getAlias (fst field) of
                                 None \<Rightarrow> NULL
                               | Some a \<Rightarrow> if a = [] then NULL else StringLiteral a),
                   (''calls'', if printedArgs \<noteq> [] then ArrayLiteralExpression printedArgs
                               else NULL),
                   (''children'', selections),
                   (''directives'', printedDirectives),
                   (''fieldName'', StringLiteral (field_getName (fst field))),
                   (''kind'', StringLiteral ''Field''),
                   (''metadata'', metadata),
                   (''type'', StringLiteral (typeName fieldType))]))))))))"

text \<open>The \<open>requisiteFields\<close> object after the first statement of \<open>printFields\<close>.\<close>

definition withPageInfo ::
  "PrinterEnv \<Rightarrow> RelayQLFieldNode list \<Rightarrow> RelayQLType \<Rightarrow> (string \<times> bool) list
     \<Rightarrow> (string \<times> bool) list" where
  "withPageInfo env fieldNodes parentType requisiteFields =
     (if isConnection parentType \<and>
         hasField (schema env) parentType (FIELDS (options env) ''pageInfo'') \<and>
         list_ex (\<lambda>field. field_getName (fst field) = FIELDS (options env) ''edges'') fieldNodes
      then objSet (FIELDS (options env) ''pageInfo'') True requisiteFields
      else requisiteFields)"

definition printFieldsUsing ::
  "SelectionsPrinter \<Rightarrow> PrinterEnv \<Rightarrow> RelayQLFieldNode list \<Rightarrow> RelayQLType
     \<Rightarrow> (string \<times> bool) list \<Rightarrow> bool \<Rightarrow> error + Printable list" where
  "printFieldsUsing printSelectionsRec env fieldNodes parentType requisiteFields isGeneratedQuery =
     (let requisite = withPageInfo env fieldNodes parentType requisiteFields;
          generatedFields = remainingGenerated fieldNodes requisite
      in bind (mapM (\<lambda>fg. printFieldUsing printSelectionsRec env (fst fg) parentType requisite
                             (snd fg) isGeneratedQuery)
                 (fieldsWithGenerated fieldNodes requisite)) (\<lambda>requested.
         bind (mapM (\<lambda>fieldName.
                   bind (generateField (schema env) parentType fieldName) (\<lambda>generatedField.
                     printFieldUsing printSelectionsRec env generatedField parentType requisite
                       generatedFields isGeneratedQuery))
                 (map fst generatedFields)) (\<lambda>generated.
           Inr (requested @ generated))))"

text \<open>
  One step of the loop of \<open>printSelections\<close> over the selections: what the selection adds
  to \<open>printedFragments\<close>.
\<close>

definition printSelectionFragment ::
  "SelectionsPrinter \<Rightarrow> PrinterEnv \<Rightarrow> RelayQLSelection \<Rightarrow> error + Printable list" where
  "printSelectionFragment printSelectionsRec env selection =
     (case selection of
        RelayQLFragmentSpread spreadName ds \<Rightarrow>
          if ds \<noteq> [] then Inl SpreadDirectivesUnsupported
          else Inr [printFragmentReference env spreadName]
      | RelayQLInlineFragment fragment sels \<Rightarrow>
          bind (printFragmentUsing printSelectionsRec env (fragment, sels)) (\<lambda>e. Inr [e])
      | RelayQLField field sels \<Rightarrow> Inr [])"

text \<open>The end of \<open>printSelections\<close>, from \<open>const selections = [...]\<close> on.\<close>

definition finishSelections :: "Printable list \<Rightarrow> bool \<Rightarrow> Printable" where
  "finishSelections printed didPrintFragmentReference =
     (if printed \<noteq> [] then
        (if didPrintFragmentReference
         then shallowFlatten (ArrayLiteralExpression printed)
         else ArrayLiteralExpression printed)
      else NULL)"

primrec printSelections :: "nat \<Rightarrow> SelectionsPrinter" where
  "printSelections 0 = (\<lambda>env parentType selections requisiteFields extraFragments
                          isGeneratedQuery. Inl OutOfFuel)"
| "printSelections (Suc n) =
     (\<lambda>env parentType selections requisiteFields extraFragments isGeneratedQuery.
        bind (mapM (printSelectionFragment (printSelections n) env) selections)
          (\<lambda>fromSelections.
        bind (mapM (printFragmentUsing (printSelections n) env) extraFragments) (\<lambda>fromExtra.
        bind (printFieldsUsing (printSelections n) env (selectedFields selections) parentType
                requisiteFields isGeneratedQuery) (\<lambda>printedFields.
          Inr (finishSelections (printedFields @ concat fromSelections @ fromExtra)
                 (list_ex isFragmentSpread selections))))))"

definition printFragment :: "nat \<Rightarrow> PrinterEnv \<Rightarrow> RelayQLFragment \<Rightarrow> error + Printable" where
  "printFragment n = printFragmentUsing (printSelections n)"


definition printField ::
  "nat \<Rightarrow> PrinterEnv \<Rightarrow> RelayQLFieldNode \<Rightarrow> RelayQLType \<Rightarrow> (string \<times> bool) list
     \<Rightarrow> (string \<times> bool) list \<Rightarrow> bool \<Rightarrow> error + Printable" where
  "printField n = printFieldUsing (printSelections n)"

subsection \<open>Definitions\<close>

text \<open>\<open>rootFields[0]\<close>, and what reading a property of \<open>undefined\<close> does.\<close>

definition firstRootField :: "RelayQLFieldNode list \<Rightarrow> error + RelayQLFieldNode" where
  "firstRootField rootFields = (case rootFields of [] \<Rightarrow> Inl TypeError | f # fs \<Rightarrow> Inr f)"

definition queryRequisiteFields :: "PrinterEnv \<Rightarrow> RelayQLType \<Rightarrow> (string \<times> bool) list" where
  "queryRequisiteFields env rootFieldType =
     (let r0 = (case identifyingFieldName rootFieldType of
                  None \<Rightarrow> []
                | Some idName \<Rightarrow> objSet idName True [])
      in if isAbstract rootFieldType then objSet (FIELDS (options env) ''__typename'') True r0
         else r0)"

text \<open>
  The \<open>metadata\<close> object of \<open>printQuery\<close> before the root call is looked at, and the block
  that computes \<open>calls\<close>: it returns the metadata, extended with the identifying argument
  when there is one, and the printed calls.
\<close>

definition queryMetadata :: "RelayQLType \<Rightarrow> (string \<times> JSValue) list" where
  "queryMetadata rootFieldType =
     (if isList rootFieldType then [(''isPlural'', JSBoolean True)] else [])
     @ (if isAbstract rootFieldType then [(''isAbstract'', JSBoolean True)] else [])"

definition queryCalls ::
  "PrinterEnv \<Rightarrow> RelayQLArgument list \<Rightarrow> (string \<times> JSValue) list
     \<Rightarrow> error + ((string \<times> JSValue) list \<times> Printable)" where
  "queryCalls env rootFieldArgs metadata =
     (case rootFieldArgs of
        [identifyingArg] \<Rightarrow>
          (let identifyingArgName = arg_getName identifyingArg;
               identifyingArgType = argType_getName (arg_getType identifyingArg)
           in bind (objectify [(''type'', JSString identifyingArgType)]) (\<lambda>md.
              bind (printArgumentValue env identifyingArg) (\<lambda>v.
                Inr (metadata @ [(''identifyingArgName'', JSString identifyingArgName),
                                 (''identifyingArgType'', JSString identifyingArgType)],
                     ArrayLiteralExpression
                       [codify [(''kind'', StringLiteral ''Call''),
                                (''metadata'', md),
                                (''name'', StringLiteral identifyingArgName),
                                (''value'', v)]]))))
      | _ \<Rightarrow> Inr (metadata, NULL))"

definition printQuery ::
  "nat \<Rightarrow> PrinterEnv \<Rightarrow> string \<Rightarrow> RelayQLFieldNode list \<Rightarrow> bool \<Rightarrow> error + Printable" where
  "printQuery n env queryName rootFields enableValidation =
     (if length rootFields \<noteq> 1 \<and> enableValidation then Inl TooManyRootFields
      else
        bind (firstRootField rootFields) (\<lambda>rootField.
        bind (printSelections n env (field_getType (fst rootField)) (snd rootField)
                (queryRequisiteFields env (field_getType (fst rootField))) [] False)
          (\<lambda>selections.
        if length (field_getArguments (fst rootField)) > 1 then Inl InvalidRootFieldArity
        else
          bind (queryCalls env (field_getArguments (fst rootField))
                  (queryMetadata (field_getType (fst rootField)))) (\<lambda>metadataAndCalls.
          bind (printDirectives env (field_getDirectives (fst rootField)))
            (\<lambda>printedDirectives.
          bind (objectify (fst metadataAndCalls)) (\<lambda>printedMetadata.
            Inr (codify
                   [(''calls'', snd metadataAndCalls),
                    (''children'', selections),
                    (''directives'', printedDirectives),
                    (''fieldName'', StringLiteral (field_getName (fst rootField))),
                    (''kind'', StringLiteral ''Query''),
                    (''metadata'', printedMetadata),
                    (''name'', StringLiteral queryName),
                    (''type'', StringLiteral (typeName (field_getType (fst rootField))))])))))))"

text \<open>
  \<open>rootField.getDeclaredArgument(INPUT_ARGUMENT_NAME)\<close> followed by
  \<open>printArgumentTypeForMetadata\<close>; without such a declared argument there is no type to
  ask.
\<close>

definition inputTypeMetadata :: "PrinterEnv \<Rightarrow> FieldInfo \<Rightarrow> error + (string \<times> JSValue) list" where
  "inputTypeMetadata env rootField =
     (case map_of (field_getDeclaredArguments rootField) (INPUT_ARGUMENT_NAME (options env)) of
        None \<Rightarrow> Inl TypeError
      | Some argType \<Rightarrow>
          Inr [(''inputType'', case printArgumentTypeForMetadata argType of
                                 None \<Rightarrow> JSNull | Some t \<Rightarrow> JSString t)])"

text \<open>
  \<open>printMutation\<close> and \<open>printSubscription\<close> differ in the requisite fields and in the
  \<open>kind\<close> they print; \<open>printOperation\<close> is their common text.
\<close>

definition printOperation ::
  "nat \<Rightarrow> PrinterEnv \<Rightarrow> string \<Rightarrow> string list \<Rightarrow> string \<Rightarrow> RelayQLFieldNode list
     \<Rightarrow> RelayQLDirective list \<Rightarrow> bool \<Rightarrow> error + Printable" where
  "printOperation n env kind requisiteCandidates operationName rootFields directives
       enableValidation =
     (if length rootFields \<noteq> 1 \<and> enableValidation then Inl TooManyRootFields
      else
        bind (firstRootField rootFields) (\<lambda>rootField.
        let rootFieldType = field_getType (fst rootField)
        in bind (validateMutationField env (fst rootField)) (\<lambda>u.
           let requisiteFields =
                 foldl (\<lambda>r fieldName.
                          if hasField (schema env) rootFieldType fieldName
                          then objSet fieldName True r else r) [] requisiteCandidates
           in bind (printSelections n env rootFieldType (snd rootField) requisiteFields [] False)
                (\<lambda>selections.
              bind (inputTypeMetadata env (fst rootField)) (\<lambda>metadata.
              bind (objectify []) (\<lambda>callMetadata.
              bind (printVariable env ''input'') (\<lambda>callValue.
              bind (printDirectives env directives) (\<lambda>printedDirectives.
              bind (objectify metadata) (\<lambda>printedMetadata.
                Inr (codify
                       [(''calls'',
                         ArrayLiteralExpression
                           [codify [(''kind'', StringLiteral ''Call''),
                                    (''metadata'', callMetadata),
                                    (''name'', StringLiteral (field_getName (fst rootField))),
                                    (''value'', callValue)]]),
                        (''children'', selections),
                        (''directives'', printedDirectives),
                        (''kind'', StringLiteral kind),
                        (''metadata'', printedMetadata),
                        (''name'', StringLiteral operationName),
                        (''responseType'', StringLiteral (typeName rootFieldType))]))))))))))"

definition printMutation ::
  "nat \<Rightarrow> PrinterEnv \<Rightarrow> string \<Rightarrow> RelayQLFieldNode list \<Rightarrow> RelayQLDirective list \<Rightarrow> bool
     \<Rightarrow> error + Printable" where
  "printMutation n env mutationName rootFields directives enableValidation =
     printOperation n env ''Mutation'' [FIELDS (options env) ''clientMutationId'']
       mutationName rootFields directives enableValidation"

definition printSubscription ::
  "nat \<Rightarrow> PrinterEnv \<Rightarrow> string \<Rightarrow> RelayQLFieldNode list \<Rightarrow> RelayQLDirective list \<Rightarrow> bool
     \<Rightarrow> error + Printable" where
  "printSubscription n env subscriptionName rootFields directives enableValidation =
     printOperation n env ''Subscription''
       [FIELDS (options env) ''clientSubscriptionId'', FIELDS (options env) ''clientMutationId'']
       subscriptionName rootFields directives enableValidation"

datatype Substitution = Substitution (substitution_name: string) (substitution_value: Printable)

definition print ::
  "nat \<Rightarrow> PrinterEnv \<Rightarrow> RelayQLDefinition \<Rightarrow> Substitution list \<Rightarrow> bool \<Rightarrow> error + Printable" where
  "print n env definition substitutions enableValidation =
     bind (case definition of
             RelayQLQuery queryName rootFields \<Rightarrow>
               printQuery n env queryName rootFields enableValidation
           | RelayQLFragmentDefinition fragment \<Rightarrow> printFragment n env fragment
           | RelayQLMutation mutationName rootFields directives \<Rightarrow>
               printMutation n env mutationName rootFields directives enableValidation
           | RelayQLSubscription subscriptionName rootFields directives \<Rightarrow>
               printSubscription n env subscriptionName rootFields directives enableValidation)
       (\<lambda>printedDocument.
          Inr (CallExpression
                 (FunctionExpression (map substitution_name substitutions) printedDocument)
                 (map substitution_value substitutions)))"

section \<open>Functions used to state the properties\<close>

subsection \<open>Slot names of a definition\<close>

text \<open>The fragment spreads of a selection tree in document order, each with its directives.\<close>

fun spreadsOf :: "SelectionNode \<Rightarrow> (string \<times> DirectiveNode list) list"
  and spreadsOfList :: "SelectionNode list \<Rightarrow> (string \<times> DirectiveNode list) list"
where
  "spreadsOf (FieldNode al n as ds sels) = spreadsOfList sels"
| "spreadsOf (FragmentSpreadNode n ds) = [(n, case ds of None \<Rightarrow> [] | Some l \<Rightarrow> l)]"
| "spreadsOf (InlineFragmentNode tc ds sels) = spreadsOfList sels"
| "spreadsOfList [] = []"
| "spreadsOfList (sel # rest) = spreadsOf sel @ spreadsOfList rest"

fun definitionSelections :: "DefinitionNode \<Rightarrow> SelectionNode list" where
  "definitionSelections (OperationDefinition operation opName vds ds sels) = sels"
| "definitionSelections (FragmentDefinition fragName typeCondition ds sels) = sels"

definition isArgumentsSpread :: "DirectiveNode list \<Rightarrow> bool" where
  "isArgumentsSpread ds = (case ds of [d] \<Rightarrow> dirName d = ''arguments'' | _ \<Rightarrow> False)"

definition countArgumentsSpreads :: "(string \<times> DirectiveNode list) list \<Rightarrow> nat" where
  "countArgumentsSpreads sp = length (filter (\<lambda>p. isArgumentsSpread (snd p)) sp)"

text \<open>
  Slot naming with one counter for the whole definition: the spreads are named in
  document order, a spread with \<open>@arguments\<close> takes the next number whatever fragment it
  names, any other spread keeps the fragment's name. \<open>k\<close> is the number of \<open>@arguments\<close>
  spreads named so far.
\<close>

fun slotNames :: "nat \<Rightarrow> (string \<times> DirectiveNode list) list \<Rightarrow> string list" where
  "slotNames k [] = []"
| "slotNames k ((n, ds) # rest) =
     (if isArgumentsSpread ds
      then (n @ ''_args'' @ string_of_nat (k + 1)) # slotNames (k + 1) rest
      else n # slotNames k rest)"

text \<open>
  \<open>fragment F on T { ...Foo @arguments(x: $y)  friends { ...Bar @arguments(x: $y) ...Baz }
  ...Foo @arguments(x: 1) }\<close>
\<close>

definition spreadExample :: DefinitionNode where
  "spreadExample =
     FragmentDefinition ''F'' ''T'' []
       [FragmentSpreadNode ''Foo''
          (Some [DirectiveNode ''arguments'' (Some [ArgumentNode ''x'' (Variable ''y'')])]),
        FieldNode None ''friends'' [] []
          [FragmentSpreadNode ''Bar''
             (Some [DirectiveNode ''arguments'' (Some [ArgumentNode ''x'' (Variable ''y'')])]),
           FragmentSpreadNode ''Baz'' None],
        FragmentSpreadNode ''Foo''
          (Some [DirectiveNode ''arguments'' (Some [ArgumentNode ''x'' (IntValue ''1'')])])]"

text \<open>\<open>fragment F on T { ...__proto__ }\<close>\<close>

definition protoSpreadExample :: DefinitionNode where
  "protoSpreadExample = FragmentDefinition ''F'' ''T'' [] [FragmentSpreadNode ''__proto__'' None]"

subsection \<open>Reading a printed node\<close>

text \<open>
  The value an object literal gives a property name when it is evaluated: that of the
  last property assignment of that name.
\<close>

definition propertyValue :: "(string \<times> Printable) list \<Rightarrow> string \<Rightarrow> Printable option" where
  "propertyValue properties key = map_of (rev properties) key"

definition objectProperty :: "Printable \<Rightarrow> string \<Rightarrow> Printable option" where
  "objectProperty e key =
     (case e of ObjectLiteralExpression properties \<Rightarrow> propertyValue properties key | _ \<Rightarrow> None)"

definition propertyNames :: "Printable \<Rightarrow> string list" where
  "propertyNames e = (case e of ObjectLiteralExpression properties \<Rightarrow> map fst properties | _ \<Rightarrow> [])"

text \<open>The \<open>fieldName\<close> of a printed node of kind \<open>Field\<close>.\<close>

definition printedFieldName :: "Printable \<Rightarrow> string option" where
  "printedFieldName e =
     (if objectProperty e ''kind'' = Some (StringLiteral ''Field'') then
        (case objectProperty e ''fieldName'' of Some (StringLiteral n) \<Rightarrow> Some n | _ \<Rightarrow> None)
      else None)"

text \<open>Whether the metadata object of a printed node gives a flag the value \<open>true\<close>.\<close>

definition metadataFlag :: "Printable \<Rightarrow> string \<Rightarrow> bool" where
  "metadataFlag e flag =
     (case objectProperty e ''metadata'' of
        Some m \<Rightarrow> objectProperty m flag = Some TrueLiteral
      | None \<Rightarrow> False)"

text \<open>The elements of a printed selection array, with or without the flatten wrapper.\<close>

definition selectionArray :: "Printable \<Rightarrow> Printable list" where
  "selectionArray e =
     (case e of
        ArrayLiteralExpression printed \<Rightarrow> printed
      | CallExpression f [a, ArrayLiteralExpression printed] \<Rightarrow> printed
      | _ \<Rightarrow> [])"

definition childrenOf :: "Printable \<Rightarrow> Printable list" where
  "childrenOf e = (case objectProperty e ''children'' of Some c \<Rightarrow> selectionArray c | None \<Rightarrow> [])"






text \<open>
  A pair of applied pagination arguments that \<open>validateConnectionField\<close> rejects: both
  present and not both variables.
\<close>

definition forbiddenPair :: "RelayQLArgument option \<Rightarrow> RelayQLArgument option \<Rightarrow> bool" where
  "forbiddenPair a b = (a \<noteq> None \<and> b \<noteq> None \<and> \<not> (argIsVariable a \<and> argIsVariable b))"

text \<open>
  The fragment node inside the result of \<open>printFragment\<close>, which is the node itself or the
  first argument of the \<open>__createFragment\<close> call around it.
\<close>

definition fragmentCodeOf :: "Printable \<Rightarrow> Printable" where
  "fragmentCodeOf e = (case e of CallExpression f (code # rest) \<Rightarrow> code | _ \<Rightarrow> e)"

text \<open>The names of the fields a selection set requests itself, in order.\<close>

definition requestedNames :: "RelayQLSelection list \<Rightarrow> string list" where
  "requestedNames selections = map (\<lambda>field. field_getName (fst field)) (selectedFields selections)"

text \<open>
  A printed selection array holds a requisite field as often as the selection set
  requests it, or once when it does not, and every printed field of that name is marked
  \<open>isRequisite\<close>.
\<close>

definition printsRequisite :: "Printable list \<Rightarrow> RelayQLSelection list \<Rightarrow> string \<Rightarrow> bool" where
  "printsRequisite printed selections fieldName =
     (count_list (map printedFieldName printed) (Some fieldName) =
        (if fieldName \<in> set (requestedNames selections)
         then count_list (requestedNames selections) fieldName else 1)
      \<and> list_all (\<lambda>e. printedFieldName e \<noteq> Some fieldName \<or> metadataFlag e ''isRequisite'')
            printed
      \<and> (fieldName \<in> set (requestedNames selections) \<or>
         list_all (\<lambda>e. printedFieldName e \<noteq> Some fieldName \<or> metadataFlag e ''isGenerated'')
           printed))"

subsection \<open>A small schema and definitions to print\<close>

text \<open>
  \<open>interface Node { id }\<close>, \<open>type User implements Node { id name friends tags }\<close>, the
  connection \<open>UserConnection { edges pageInfo }\<close>, a connection \<open>TagConnection { edges }\<close>
  that declares no \<open>pageInfo\<close>, and a mutation payload \<open>LikePayload { clientMutationId }\<close>.
\<close>

definition namedType :: "string \<Rightarrow> RelayQLType" where
  "namedType n =
     \<lparr> typeName = n, typeNameWithModifiers = n, isAbstract = False, isList = False,
       isConnection = False, isConnectionEdge = False, isConnectionPageInfo = False,
       canHaveSubselections = False, isQueryType = False, mayImplementNode = False,
       alwaysImplementsNode = False, identifyingFieldName = None \<rparr>"

definition nodeInterfaceType :: RelayQLType where
  "nodeInterfaceType =
     (namedType ''Node'')\<lparr> isAbstract := True, canHaveSubselections := True,
       mayImplementNode := True, alwaysImplementsNode := True,
       identifyingFieldName := Some ''id'' \<rparr>"

definition userType :: RelayQLType where
  "userType =
     (namedType ''User'')\<lparr> canHaveSubselections := True, mayImplementNode := True,
       alwaysImplementsNode := True, identifyingFieldName := Some ''id'' \<rparr>"

definition userConnectionType :: RelayQLType where
  "userConnectionType =
     (namedType ''UserConnection'')\<lparr> isConnection := True, canHaveSubselections := True \<rparr>"

definition userEdgeType :: RelayQLType where
  "userEdgeType =
     (namedType ''UserEdge'')\<lparr> typeNameWithModifiers := ''[UserEdge]'', isList := True,
       isConnectionEdge := True, canHaveSubselections := True \<rparr>"

definition pageInfoType :: RelayQLType where
  "pageInfoType =
     (namedType ''PageInfo'')\<lparr> isConnectionPageInfo := True, canHaveSubselections := True \<rparr>"

definition tagConnectionType :: RelayQLType where
  "tagConnectionType =
     (namedType ''TagConnection'')\<lparr> isConnection := True, canHaveSubselections := True \<rparr>"

definition tagEdgeType :: RelayQLType where
  "tagEdgeType =
     (namedType ''TagEdge'')\<lparr> typeNameWithModifiers := ''[TagEdge]'', isList := True,
       isConnectionEdge := True, canHaveSubselections := True \<rparr>"

definition likePayloadType :: RelayQLType where
  "likePayloadType = (namedType ''LikePayload'')\<lparr> canHaveSubselections := True \<rparr>"

definition exampleFields :: "((string \<times> string) \<times> RelayQLType) list" where
  "exampleFields =
     [((''Node'', ''id''), namedType ''ID''),
      ((''Node'', ''__typename''), namedType ''String''),
      ((''User'', ''id''), namedType ''ID''),
      ((''User'', ''name''), namedType ''String''),
      ((''User'', ''friends''), userConnectionType),
      ((''User'', ''tags''), tagConnectionType),
      ((''UserConnection'', ''edges''), userEdgeType),
      ((''UserConnection'', ''pageInfo''), pageInfoType),
      ((''UserEdge'', ''node''), userType),
      ((''UserEdge'', ''cursor''), namedType ''String''),
      ((''PageInfo'', ''hasNextPage''), namedType ''Boolean''),
      ((''PageInfo'', ''hasPreviousPage''), namedType ''Boolean''),
      ((''TagConnection'', ''edges''), tagEdgeType),
      ((''TagEdge'', ''node''), namedType ''Tag''),
      ((''TagEdge'', ''cursor''), namedType ''String''),
      ((''LikePayload'', ''clientMutationId''), namedType ''String'')]"

definition exampleSchema :: Schema where
  "exampleSchema =
     \<lparr> getFieldType = (\<lambda>t fieldName. map_of exampleFields (typeName t, fieldName)),
       getFieldArguments = (\<lambda>t fieldName. []),
       generateIdFragment =
         (\<lambda>t. (\<lparr> fragment_getName = ''IdFragment'', fragment_getType = nodeInterfaceType,
                   fragment_getDirectives = [] \<rparr>, [])) \<rparr>"

definition exampleEnv :: PrinterEnv where
  "exampleEnv =
     \<lparr> options = \<lparr> inputArgumentName = None, snakeCase = False \<rparr>, schema = exampleSchema,
       tagName = ''RelayQL_GENERATED'', variableNames = [] \<rparr>"

definition leafField :: "string \<Rightarrow> RelayQLType \<Rightarrow> RelayQLFieldNode" where
  "leafField n t =
     (\<lparr> field_getName = n, field_getAlias = None, field_getType = t, field_getArguments = [],
        field_getDeclaredArguments = [], field_getDirectives = [], field_isPattern = False \<rparr>, [])"

definition intArgType :: RelayQLArgumentType where
  "intArgType = RelayQLArgumentType ''Int'' False False False"

definition idArgType :: RelayQLArgumentType where
  "idArgType = RelayQLArgumentType ''ID'' False True False"

definition nodeRootField :: "RelayQLSelection list \<Rightarrow> RelayQLFieldNode" where
  "nodeRootField selections =
     (\<lparr> field_getName = ''node'', field_getAlias = None, field_getType = nodeInterfaceType,
        field_getArguments = [RelayQLArgument ''id'' idArgType (ScalarValue (JSString ''4''))],
        field_getDeclaredArguments = [(''id'', idArgType)], field_getDirectives = [],
        field_isPattern = False \<rparr>, selections)"

definition likeInputArgType :: RelayQLArgumentType where
  "likeInputArgType = RelayQLArgumentType ''LikeInput'' False False False"

text \<open>\<open>likeStory(input: $input)\<close>, declared as \<open>likeStory(input: LikeInput): LikePayload\<close>.\<close>

definition likeStoryField :: RelayQLFieldNode where
  "likeStoryField =
     (\<lparr> field_getName = ''likeStory'', field_getAlias = None, field_getType = likePayloadType,
        field_getArguments =
          [RelayQLArgument ''input'' likeInputArgType (VariableReference ''input'')],
        field_getDeclaredArguments = [(''input'', likeInputArgType)],
        field_getDirectives = [], field_isPattern = False \<rparr>, [])"

text \<open>\<open>friends(...) { edges { cursor } }\<close> on \<open>User\<close>, with the given applied arguments.\<close>

definition friendsField :: "RelayQLArgument list \<Rightarrow> RelayQLFieldNode" where
  "friendsField appliedArgs =
     (\<lparr> field_getName = ''friends'', field_getAlias = None, field_getType = userConnectionType,
        field_getArguments = appliedArgs,
        field_getDeclaredArguments =
          [(''first'', intArgType), (''last'', intArgType),
           (''before'', idArgType), (''after'', idArgType)],
        field_getDirectives = [], field_isPattern = False \<rparr>,
      [RelayQLField (fst (leafField ''edges'' userEdgeType))
         [RelayQLField (fst (leafField ''cursor'' (namedType ''String''))) []]])"

text \<open>The directive \<open>@relay(key: value)\<close> with one scalar argument.\<close>

definition relayDirective :: "string \<Rightarrow> JSValue \<Rightarrow> RelayQLDirective" where
  "relayDirective key v =
     RelayQLDirective ''relay''
       [RelayQLArgument key (RelayQLArgumentType ''Boolean'' True False False) (ScalarValue v)]"


text \<open>\<open>name @relay(plural: false)\<close>, a field of type \<open>String\<close>.\<close>

definition directiveFieldExample :: RelayQLFieldNode where
  "directiveFieldExample =
     (\<lparr> field_getName = ''name'', field_getAlias = None, field_getType = namedType ''String'',
        field_getArguments = [], field_getDeclaredArguments = [],
        field_getDirectives = [relayDirective ''plural'' (JSBoolean False)],
        field_isPattern = False \<rparr>, [])"

text \<open>\<open>fragment F on Node @relay(isAbstract: false) { }\<close>\<close>

definition abstractFragmentExample :: RelayQLFragment where
  "abstractFragmentExample =
     (\<lparr> fragment_getName = ''F'', fragment_getType = nodeInterfaceType,
        fragment_getDirectives = [relayDirective ''isAbstract'' (JSBoolean False)] \<rparr>, [])"

text \<open>\<open>tags { edges { cursor } }\<close> on \<open>User\<close>; \<open>TagConnection\<close> declares no \<open>pageInfo\<close>.\<close>

definition tagsFieldExample :: RelayQLFieldNode where
  "tagsFieldExample =
     (\<lparr> field_getName = ''tags'', field_getAlias = None, field_getType = tagConnectionType,
        field_getArguments = [], field_getDeclaredArguments = [],
        field_getDirectives = [], field_isPattern = False \<rparr>,
      [RelayQLField (fst (leafField ''edges'' tagEdgeType))
         [RelayQLField (fst (leafField ''cursor'' (namedType ''String''))) []]])"

text \<open>\<open>query Q { node(id: "4") { __typename  kind: __typename } }\<close>\<close>

definition typenameTwiceExample :: RelayQLFieldNode where
  "typenameTwiceExample =
     nodeRootField
       [RelayQLField (fst (leafField ''__typename'' (namedType ''String''))) [],
        RelayQLField ((fst (leafField ''__typename'' (namedType ''String'')))
                        \<lparr> field_getAlias := Some ''kind'' \<rparr>) []]"

section \<open>Properties\<close>

subsection \<open>Exceptions as values\<close>

lemma bind_Inr_iff: "(bind m f = Inr y) = (\<exists>x. m = Inr x \<and> f x = Inr y)"
  by (cases m) (simp_all add: bind_def)

lemma bind_Inl_iff: "(bind m f = Inl e) = (m = Inl e \<or> (\<exists>x. m = Inr x \<and> f x = Inl e))"
  by (cases m) (simp_all add: bind_def)

lemma bind_Inl [simp]: "bind (Inl e) f = Inl e"
  by (simp add: bind_def)

lemma bind_Inr [simp]: "bind (Inr x) f = f x"
  by (simp add: bind_def)

subsection \<open>The normalizer numbers @arguments spreads with one counter\<close>

lemma slotNames_append:
  "slotNames k (xs @ ys) = slotNames k xs @ slotNames (k + countArgumentsSpreads xs) ys"
  by (induction xs arbitrary: k) (auto simp: countArgumentsSpreads_def)

lemma visitDirective_fragmentID:
  "visitDirective d s = Inr (d', s') \<Longrightarrow> fragmentID s' = fragmentID s"
  by (auto simp: visitDirective_def split: if_splits)

lemma visitDirectives_fragmentID:
  "visitDirectives ds s = Inr (ds', s') \<Longrightarrow> fragmentID s' = fragmentID s"
proof (induction ds arbitrary: s ds' s')
  case Nil then show ?case by simp
next
  case (Cons d ds)
  then show ?case
    by (auto simp: bind_Inr_iff dest!: visitDirective_fragmentID)
qed

lemma registerSpread_Inr:
  "registerSpread sn fn a m s = Inr (sel', s') \<Longrightarrow>
     sel' = FragmentSpreadNode sn (Some []) \<and> fragmentID s' = fragmentID s"
  by (auto simp: registerSpread_def split: if_splits)

lemma visitFragmentSpread_names:
  assumes "visitFragmentSpread n ds s = Inr (sel', s')"
  shows "map fst (spreadsOf sel') = slotNames (fragmentID s) (spreadsOf (FragmentSpreadNode n ds))
       \<and> fragmentID s' = fragmentID s + countArgumentsSpreads (spreadsOf (FragmentSpreadNode n ds))"
  using assms
  by (auto simp: visitFragmentSpread_def isArgumentsSpread_def countArgumentsSpreads_def bind_Inr_iff
        split: option.splits list.splits if_splits dest!: registerSpread_Inr)

lemma visitSelection_names:
  "visitSelection sel s = Inr (sel', s') \<Longrightarrow>
     map fst (spreadsOf sel') = slotNames (fragmentID s) (spreadsOf sel)
     \<and> fragmentID s' = fragmentID s + countArgumentsSpreads (spreadsOf sel)"
  and visitSelections_names:
  "visitSelections sels s = Inr (sels', s'') \<Longrightarrow>
     map fst (spreadsOfList sels') = slotNames (fragmentID s) (spreadsOfList sels)
     \<and> fragmentID s'' = fragmentID s + countArgumentsSpreads (spreadsOfList sels)"
proof (induction sel s and sels s arbitrary: sel' s' and sels' s'' rule: visitSelection_visitSelections.induct)
  case (1 al n as ds sels s)
  from "1.prems" obtain ds' s1 sels2 where
    d: "visitDirectives ds (s\<lparr>variables := visitArguments as (variables s)\<rparr>) = Inr (ds', s1)"
    and v: "visitSelections sels s1 = Inr (sels2, s')" and e: "sel' = FieldNode al n as ds' sels2"
    by (auto simp: bind_Inr_iff)
  from visitDirectives_fragmentID[OF d] have f: "fragmentID s1 = fragmentID s" by simp
  from "1.IH"[OF v] d f e show ?case by simp
next
  case (2 n ds s)
  then show ?case using visitFragmentSpread_names by simp
next
  case (3 tc ds sels s)
  from "3.prems" obtain ds' s1 sels2 where
    d: "visitDirectives ds s = Inr (ds', s1)"
    and v: "visitSelections sels s1 = Inr (sels2, s')" and e: "sel' = InlineFragmentNode tc ds' sels2"
    by (auto simp: bind_Inr_iff)
  from visitDirectives_fragmentID[OF d] have f: "fragmentID s1 = fragmentID s" by simp
  from "3.IH"[OF v] d f e show ?case by simp
next
  case (4 s)
  then show ?case by (simp add: countArgumentsSpreads_def)
next
  case (5 sel rest s)
  from "5.prems" obtain sel1 s1 rest1 where
    a: "visitSelection sel s = Inr (sel1, s1)"
    and b: "visitSelections rest s1 = Inr (rest1, s'')" and e: "sels' = sel1 # rest1"
    by (auto simp: bind_Inr_iff)
  from "5.IH"(1)[OF a] have h1: "map fst (spreadsOf sel1) = slotNames (fragmentID s) (spreadsOf sel)"
    and h2: "fragmentID s1 = fragmentID s + countArgumentsSpreads (spreadsOf sel)" by simp_all
  from "5.IH"(2)[OF b] have h3: "map fst (spreadsOfList rest1) = slotNames (fragmentID s1) (spreadsOfList rest)"
    and h4: "fragmentID s'' = fragmentID s1 + countArgumentsSpreads (spreadsOfList rest)" by simp_all
  show ?case using h1 h2 h3 h4 e by (simp add: slotNames_append countArgumentsSpreads_def)
qed

lemma visitVariableDefinitions_fragmentID:
  "visitVariableDefinitions vds s = Inr (vds', s') \<Longrightarrow> fragmentID s' = fragmentID s"
proof (induction vds arbitrary: s vds' s')
  case Nil then show ?case by simp
next
  case (Cons vd vds)
  from Cons.prems obtain ds' s1 vds2 where
    d: "visitDirectives (vdDirectives vd)
          (s\<lparr>variables := (case vdDefaultValue vd of None \<Rightarrow> assignNull (vdVariable vd) (variables s)
                | Some v \<Rightarrow> visitValue v (assignNull (vdVariable vd) (variables s)))\<rparr>) = Inr (ds', s1)"
    and r: "visitVariableDefinitions vds s1 = Inr (vds2, s')"
    by (auto simp: bind_Inr_iff Let_def)
  from visitDirectives_fragmentID[OF d] Cons.IH[OF r] show ?case by simp
qed

lemma string_of_nat_small: "n < 10 \<Longrightarrow> string_of_nat n = [digit_char n]"
  by (simp add: string_of_nat.simps)

text \<open>
  C2 (as amended). Within one definition the slot names of the fragment spreads, read in
  document order from the rewritten definition, are those of \<open>slotNames\<close> started at 0:
  a spread carrying \<open>@arguments\<close> is named \<open><fragment>_args<N>\<close> where \<open>N\<close> starts at 1
  and counts every \<open>@arguments\<close> spread of the definition met so far, of whatever
  fragment; a spread of a different fragment does not start a counter of its own.
\<close>

theorem slot_numbering_shared_counter:
  assumes "createClassicAST def = Inr r"
  shows "map fst (spreadsOfList (definitionSelections (classicAST r)))
           = slotNames 0 (spreadsOfList (definitionSelections def))"
proof (cases def)
  case (OperationDefinition operation opName vds ds sels)
  with assms obtain vds' s1 ds' s2 sels' s3 where
    a: "visitVariableDefinitions vds initialState = Inr (vds', s1)"
    and b: "visitDirectives ds s1 = Inr (ds', s2)"
    and c: "visitSelections sels s2 = Inr (sels', s3)"
    and r: "classicAST r = OperationDefinition operation opName vds' ds' sels'"
    by (auto simp: createClassicAST_def bind_Inr_iff)
  have "fragmentID s2 = 0"
    using visitVariableDefinitions_fragmentID[OF a] visitDirectives_fragmentID[OF b]
    by (simp add: initialState_def)
  with visitSelections_names[OF c] r OperationDefinition show ?thesis by simp
next
  case (FragmentDefinition fragName typeCondition ds sels)
  with assms obtain ds' s1 sels' s2 where
    b: "visitDirectives ds initialState = Inr (ds', s1)"
    and c: "visitSelections sels s1 = Inr (sels', s2)"
    and r: "classicAST r = FragmentDefinition fragName typeCondition ds' sels'"
    by (auto simp: createClassicAST_def bind_Inr_iff)
  have "fragmentID s1 = 0"
    using visitDirectives_fragmentID[OF b] by (simp add: initialState_def)
  with visitSelections_names[OF c] r FragmentDefinition show ?thesis by simp
qed

lemma spreadExample_run:
  "map_sum id (\<lambda>r. map fst (resultFragments r)) (createClassicAST spreadExample)
     = Inr [''Foo_args1'', ''Bar_args2'', ''Baz'', ''Foo_args3'']"
  by code_simp

theorem slot_numbering_shared_counter_witness:
  "map_sum id (\<lambda>r. map fst (spreadsOfList (definitionSelections (classicAST r))))
      (createClassicAST spreadExample)
     = Inr [''Foo_args1'', ''Bar_args2'', ''Baz'', ''Foo_args3'']"
proof -
  obtain r where r: "createClassicAST spreadExample = Inr r"
    using spreadExample_run by (cases "createClassicAST spreadExample") auto
  have "slotNames 0 (spreadsOfList (definitionSelections spreadExample))
          = [''Foo_args1'', ''Bar_args2'', ''Baz'', ''Foo_args3'']"
    by (simp add: spreadExample_def isArgumentsSpread_def string_of_nat_small digit_char_def)
  with slot_numbering_shared_counter[OF r] r show ?thesis by simp
qed

text \<open>
  C2 as stated fails: in \<open>spreadExample\<close> the first \<open>@arguments\<close> spread of \<open>Bar\<close> follows
  one of \<open>Foo\<close> and is named \<open>Bar_args2\<close>, and the second of \<open>Foo\<close> is \<open>Foo_args3\<close>; with a
  counter per fragment they would be \<open>Bar_args1\<close> and \<open>Foo_args2\<close>.
\<close>

theorem independent_counter_counterexample:
  "map_sum id (\<lambda>r. map fst (resultFragments r)) (createClassicAST spreadExample)
     \<noteq> Inr [''Foo_args1'', ''Bar_args1'', ''Baz'', ''Foo_args2'']"
  by (simp add: spreadExample_run)

subsection \<open>Normalizing one fragment spread\<close>

lemma relay_directive_rejected:
  assumes "\<forall>v. as \<noteq> Some [ArgumentNode ''mask'' v]"
  shows "isl (visitFragmentSpread fragmentName (Some [DirectiveNode ''relay'' as]) s)"
proof (cases as)
  case None
  then show ?thesis by (simp add: visitFragmentSpread_def)
next
  case (Some l)
  show ?thesis
  proof (cases l)
    case Nil
    with Some show ?thesis by (simp add: visitFragmentSpread_def)
  next
    case (Cons a rest)
    show ?thesis
    proof (cases rest)
      case Nil
      obtain n v where a: "a = ArgumentNode n v" by (cases a)
      with assms Some Cons Nil have "n \<noteq> ''mask''" by auto
      with Some Cons Nil a show ?thesis by (simp add: visitFragmentSpread_def)
    next
      case (Cons b rest')
      with Some \<open>l = a # rest\<close> show ?thesis by (simp add: visitFragmentSpread_def)
    qed
  qed
qed

lemma map_of_objSet: "map_of (objSet k v obj) k' = (if k' = k then Some v else map_of obj k')"
  by (induction obj) auto

lemma map_fst_objSet:
  "map fst (objSet k v obj) = (if k \<in> set (map fst obj) then map fst obj else map fst obj @ [k])"
  by (induction obj) (auto simp: rev_image_eqI)

text \<open>
  What the \<open>FragmentSpread\<close> visitor does for a fragment whose name is neither empty nor
  \<open>__proto__\<close>. With no directive it renames the spread to the fragment's name and the
  table then holds, under that name, a slot for the fragment with mask true; the other
  keys keep their slots, the name is added at the end of the keys when it is new, and
  nothing else of the state changes. With the one directive \<open>@relay(mask: b)\<close> the same
  holds with mask \<open>b\<close>. A single \<open>@relay\<close> directive whose arguments are not exactly one
  argument named \<open>mask\<close> raises an error; a single directive that is neither \<open>@relay\<close>
  nor \<open>@arguments\<close> raises \<open>UnsupportedSpreadDirective\<close>; two or more directives raise
  \<open>ConflictingSpreadDirectives\<close>.
\<close>

lemma spread_slot_recorded:
  assumes "fragmentName \<noteq> []" and "fragmentName \<noteq> ''__proto__''"
    and "visitFragmentSpread fragmentName ds s = r"
    and "ds = None \<and> masked \<or> ds = Some [] \<and> masked
         \<or> ds = Some [DirectiveNode ''relay'' (Some [ArgumentNode ''mask'' (BooleanValue masked)])]"
  shows "\<exists>s'. r = Inr (FragmentSpreadNode fragmentName (Some []), s')
           \<and> map_of (fragments s') fragmentName =
                 Some \<lparr> fragment_name = fragmentName, fragment_isMasked = masked,
                        fragment_args = None \<rparr>
           \<and> (\<forall>k. k \<noteq> fragmentName \<longrightarrow> map_of (fragments s') k = map_of (fragments s) k)
           \<and> map fst (fragments s') =
                 (if fragmentName \<in> set (map fst (fragments s)) then map fst (fragments s)
                  else map fst (fragments s) @ [fragmentName])
           \<and> fragmentID s' = fragmentID s \<and> variables s' = variables s
           \<and> argumentDefinitions s' = argumentDefinitions s"
proof -
  have r: "r = registerSpread fragmentName fragmentName None masked s"
    using assms(3,4) by (auto simp: visitFragmentSpread_def)
  show ?thesis
    unfolding r using assms(1,2)
    by (simp add: registerSpread_def assignObject_def map_of_objSet map_fst_objSet)
qed

lemma spread_directive_rejected:
  "(\<forall>v. as \<noteq> Some [ArgumentNode ''mask'' v]) \<Longrightarrow>
     isl (visitFragmentSpread fragmentName (Some [DirectiveNode ''relay'' as]) s)"
  "dirName d \<noteq> ''relay'' \<Longrightarrow> dirName d \<noteq> ''arguments'' \<Longrightarrow>
     visitFragmentSpread fragmentName (Some [d]) s = Inl UnsupportedSpreadDirective"
  "visitFragmentSpread fragmentName (Some (d # d' # rest)) s = Inl ConflictingSpreadDirectives"
    apply (rule relay_directive_rejected, assumption)
   apply (simp add: visitFragmentSpread_def)
  apply (simp add: visitFragmentSpread_def)
  done

lemma spread_slot_example:
  "map_sum id (\<lambda>r. map (\<lambda>kv. (fst kv, fragment_name (snd kv), fragment_isMasked (snd kv)))
                      (fragments (snd r)))
     (visitFragmentSpread ''Foo'' None initialState) = Inr [(''Foo'', ''Foo'', True)]"
  "map_sum id (\<lambda>r. map (\<lambda>kv. (fst kv, fragment_name (snd kv), fragment_isMasked (snd kv)))
                      (fragments (snd r)))
     (visitFragmentSpread ''Foo''
        (Some [DirectiveNode ''relay'' (Some [ArgumentNode ''mask'' (BooleanValue False)])])
        initialState) = Inr [(''Foo'', ''Foo'', False)]"
  by code_simp+

text \<open>
  C9 (a defect of the code). The visitor computes the slot of a spread as C9 says, and
  then writes it with \<open>fragments[substitutionName] = {...}\<close> into an object literal. For
  the spread \<open>...__proto__\<close>, with no directive, that assignment replaces the prototype of
  the table instead of adding a key: the spread is renamed to the slot \<open>__proto__\<close>, but
  the table \<open>createClassicAST\<close> returns has no slot at all, with mask true or otherwise,
  and the same happens with \<open>@relay(mask: false)\<close>.
\<close>

theorem proto_spread_leaves_no_slot:
  "map_sum id (\<lambda>r. (map fst (spreadsOfList (definitionSelections (classicAST r))),
                     map fst (resultFragments r)))
     (createClassicAST protoSpreadExample) = Inr ([''__proto__''], [])
   \<and> map_sum id (\<lambda>r. (fst r, map fst (fragments (snd r))))
       (visitFragmentSpread ''__proto__''
          (Some [DirectiveNode ''relay'' (Some [ArgumentNode ''mask'' (BooleanValue False)])])
          initialState)
     = Inr (FragmentSpreadNode ''__proto__'' (Some []), [])"
  by code_simp

subsection \<open>Loops that may throw\<close>

lemma mapM_Inr_list_all2:
  "mapM f xs = Inr ys \<Longrightarrow> list_all2 (\<lambda>x y. f x = Inr y) xs ys"
  by (induction xs arbitrary: ys) (auto simp: bind_Inr_iff)

lemma list_all2_memberD:
  "list_all2 P xs ys \<Longrightarrow> x \<in> set xs \<Longrightarrow> \<exists>y \<in> set ys. P x y"
  by (induction rule: list_all2_induct) auto

lemma mapM_Inl_member:
  "mapM f xs = Inl e \<Longrightarrow> \<exists>x \<in> set xs. f x = Inl e"
  by (induction xs) (auto simp: bind_Inl_iff)


lemma mapM_append:
  "mapM f (xs @ ys) = bind (mapM f xs) (\<lambda>as. bind (mapM f ys) (\<lambda>bs. Inr (as @ bs)))"
  by (induction xs) (auto simp: bind_def split: sum.splits)

subsection \<open>Pagination arguments of a connection field\<close>

lemma forEachRecursiveField_not_raised:
  assumes "\<And>f. callback f \<noteq> Inl e"
  shows "forEachRecursiveField callback sels \<noteq> Inl e"
  using assms
  by (induction callback sels rule: forEachRecursiveField.induct)
     (auto simp: bind_Inl_iff)

lemma validateConnectionSubfield_not_conflicting:
  "validateConnectionSubfield env field t subfield \<noteq> Inl ConflictingPaginationArguments"
  by (simp add: validateConnectionSubfield_def Let_def)

text \<open>
  C5. \<open>validateConnectionField\<close> raises \<open>ConflictingPaginationArguments\<close> exactly when one of
  the pairs \<open>first\<close>/\<open>last\<close>, \<open>first\<close>/\<open>before\<close>, \<open>last\<close>/\<open>after\<close> of applied arguments is
  present with at least one member that is not a variable; a pair of two variables never
  raises it.
\<close>

theorem conflicting_pagination_arguments:
  "validateConnectionField env fieldNode = Inl ConflictingPaginationArguments
   \<longleftrightarrow> forbiddenPair (findArgument (fst fieldNode) ''first'') (findArgument (fst fieldNode) ''last'')
     \<or> forbiddenPair (findArgument (fst fieldNode) ''first'') (findArgument (fst fieldNode) ''before'')
     \<or> forbiddenPair (findArgument (fst fieldNode) ''last'') (findArgument (fst fieldNode) ''after'')"
  using forEachRecursiveField_not_raised[OF validateConnectionSubfield_not_conflicting]
  by (auto simp: validateConnectionField_def forbiddenPair_def Let_def split: option.splits)

subsection \<open>The flatten wrapper of printSelections\<close>



lemma printSelections_Inr:
  assumes "printSelections n env parentType sels req extra gen = Inr e"
  obtains m fromSelections fromExtra printedFields where
    "n = Suc m"
    "mapM (printSelectionFragment (printSelections m) env) sels = Inr fromSelections"
    "mapM (printFragmentUsing (printSelections m) env) extra = Inr fromExtra"
    "printFieldsUsing (printSelections m) env (selectedFields sels) parentType req gen
       = Inr printedFields"
    "e = finishSelections (printedFields @ concat fromSelections @ fromExtra)
           (list_ex isFragmentSpread sels)"
  using assms by (cases n) (auto simp: bind_Inr_iff)











theorem conflicting_pagination_arguments_witness:
  "validateConnectionField exampleEnv
     (friendsField [RelayQLArgument ''first'' intArgType (ScalarValue (JSNumber 5)),
                    RelayQLArgument ''last'' intArgType (ScalarValue (JSNumber 10))])
     = Inl ConflictingPaginationArguments
   \<and> validateConnectionField exampleEnv
     (friendsField [RelayQLArgument ''first'' intArgType (VariableReference ''a''),
                    RelayQLArgument ''last'' intArgType (VariableReference ''b'')])
     \<noteq> Inl ConflictingPaginationArguments"
proof -
  have "forbiddenPair
          (findArgument (fst (friendsField
             [RelayQLArgument ''first'' intArgType (ScalarValue (JSNumber 5)),
              RelayQLArgument ''last'' intArgType (ScalarValue (JSNumber 10))])) ''first'')
          (findArgument (fst (friendsField
             [RelayQLArgument ''first'' intArgType (ScalarValue (JSNumber 5)),
              RelayQLArgument ''last'' intArgType (ScalarValue (JSNumber 10))])) ''last'')"
    by (simp add: forbiddenPair_def findArgument_def friendsField_def argIsVariable_def
          isVariable_def)
  moreover have "\<not> (forbiddenPair
          (findArgument (fst (friendsField
             [RelayQLArgument ''first'' intArgType (VariableReference ''a''),
              RelayQLArgument ''last'' intArgType (VariableReference ''b'')])) f1)
          (findArgument (fst (friendsField
             [RelayQLArgument ''first'' intArgType (VariableReference ''a''),
              RelayQLArgument ''last'' intArgType (VariableReference ''b'')])) f2))" for f1 f2
    by (simp add: forbiddenPair_def findArgument_def friendsField_def argIsVariable_def
          isVariable_def)
  ultimately show ?thesis
    using conflicting_pagination_arguments [of exampleEnv "friendsField
             [RelayQLArgument ''first'' intArgType (ScalarValue (JSNumber 5)),
              RelayQLArgument ''last'' intArgType (ScalarValue (JSNumber 10))]"]
          conflicting_pagination_arguments [of exampleEnv "friendsField
             [RelayQLArgument ''first'' intArgType (VariableReference ''a''),
              RelayQLArgument ''last'' intArgType (VariableReference ''b'')]"]
    by blast
qed

lemma flatten_example:
  "printSelections 2 exampleEnv (namedType ''Tag'')
     [RelayQLFragmentSpread ''Foo'' [],
      RelayQLField (fst (leafField ''label'' (namedType ''String''))) []] [] [] False
   = Inr (shallowFlatten (ArrayLiteralExpression
       [ObjectLiteralExpression
          [(''fieldName'', StringLiteral ''label''), (''kind'', StringLiteral ''Field''),
           (''metadata'', ObjectLiteralExpression []), (''type'', StringLiteral ''String'')],
        CallExpression (PropertyAccessExpression (Identifier ''RelayQL_GENERATED'') ''__frag'')
          [Identifier ''Foo'']]))"
  by code_simp






subsection \<open>Root fields of queries, mutations and subscriptions\<close>

text \<open>
  No step of the printer other than the count check of the three root printers raises
  \<open>TooManyRootFields\<close>.
\<close>

lemma bind_neq:
  "m \<noteq> Inl e \<Longrightarrow> (\<And>x. m = Inr x \<Longrightarrow> f x \<noteq> Inl e) \<Longrightarrow> bind m f \<noteq> Inl e"
  by (cases m) simp_all

lemma mapM_neq: "(\<And>x. x \<in> set xs \<Longrightarrow> f x \<noteq> Inl e) \<Longrightarrow> mapM f xs \<noteq> Inl e"
  using mapM_Inl_member by fastforce

lemma createLiteral_count: "createLiteral v \<noteq> Inl TooManyRootFields"
  by (cases v) (simp_all add: createLiteral_def)

lemma objectify_count: "objectify obj \<noteq> Inl TooManyRootFields"
  unfolding objectify_def
  by (intro bind_neq mapM_neq) (simp_all add: createLiteral_count)

lemma printLiteralValue_count:
  "printLiteralValue v \<noteq> Inl TooManyRootFields"
  "printLiteralValues vs \<noteq> Inl TooManyRootFields"
  "printLiteralProperties kvs \<noteq> Inl TooManyRootFields"
  by (induction v and vs and kvs rule: printLiteralValue_printLiteralValues_printLiteralProperties.induct)
     (simp_all add: bind_Inl_iff createLiteral_count)

lemma printVariable_count: "printVariable env n \<noteq> Inl TooManyRootFields"
  by (simp add: printVariable_def)

lemma printArgumentValue_count:
  "printArgumentValue env a \<noteq> Inl TooManyRootFields"
  "printValue env c \<noteq> Inl TooManyRootFields"
  "printArgumentValues env as \<noteq> Inl TooManyRootFields"
  by (induction env a and env c and env as rule: printArgumentValue_printValue_printArgumentValues.induct)
     (simp_all add: bind_Inl_iff printVariable_count printLiteralValue_count createLiteral_count
        split: ArgumentContent.splits JSValue.splits)

lemma printArgument_count: "printArgument env a \<noteq> Inl TooManyRootFields"
  unfolding printArgument_def Let_def
  by (intro bind_neq) (simp_all add: objectify_count printArgumentValue_count)

lemma printDirective_count: "printDirective env d \<noteq> Inl TooManyRootFields"
  unfolding printDirective_def
  by (intro bind_neq mapM_neq) (simp_all add: printArgumentValue_count)

lemma printDirectives_count: "printDirectives env ds \<noteq> Inl TooManyRootFields"
  unfolding printDirectives_def
  by (intro bind_neq mapM_neq) (simp_all add: printDirective_count)

lemma relayDirectiveProperty_count: "relayDirectiveProperty a \<noteq> Inl TooManyRootFields"
  by (simp add: relayDirectiveProperty_def bind_Inl_iff createLiteral_count
        split: ArgumentContent.splits)

lemma printRelayDirectiveMetadata_count:
  "printRelayDirectiveMetadata ds md \<noteq> Inl TooManyRootFields"
proof -
  have a: "(case findRelayDirective ds of
             None \<Rightarrow> Inr []
           | Some rd \<Rightarrow>
               bind (mapM relayDirectiveProperty (directive_getArguments rd))
                 (\<lambda>ps. Inr (concat ps))) \<noteq> Inl TooManyRootFields"
    using mapM_neq[of _ relayDirectiveProperty, OF relayDirectiveProperty_count]
    by (cases "findRelayDirective ds") (simp_all add: bind_Inl_iff)
  have b: "(case md of
             None \<Rightarrow> Inr []
           | Some metadata \<Rightarrow>
               mapM (\<lambda>kv. bind (createLiteral (snd kv)) (\<lambda>l. Inr (fst kv, l))) metadata)
            \<noteq> Inl TooManyRootFields"
  proof (cases md)
    case None
    then show ?thesis by simp
  next
    case (Some metadata)
    have "mapM (\<lambda>kv. bind (createLiteral (snd kv)) (\<lambda>l. Inr (fst kv, l))) metadata
            \<noteq> Inl TooManyRootFields"
      by (rule mapM_neq) (simp add: bind_Inl_iff createLiteral_count)
    with Some show ?thesis by simp
  qed
  show ?thesis
    unfolding printRelayDirectiveMetadata_def
    by (intro bind_neq a b) simp
qed

lemma printSelectVariables_count: "printSelectVariables env sv \<noteq> Inl TooManyRootFields"
proof -
  have "mapM (\<lambda>item. case arg_content item of
                         ScalarValue (JSString v) \<Rightarrow>
                           bind (printVariable env v) (\<lambda>printed. Inr (v, printed))
                       | _ \<Rightarrow> Inl TypeError) items \<noteq> Inl TooManyRootFields" for items
    by (rule mapM_neq)
       (auto simp: bind_Inl_iff printVariable_count split: ArgumentContent.splits JSValue.splits)
  then show ?thesis
    by (simp add: printSelectVariables_def split: ArgumentContent.splits JSValue.splits)
qed

lemma validateField_count: "validateField f t \<noteq> Inl TooManyRootFields"
  by (simp add: validateField_def Let_def)

lemma validateConnectionField_count: "validateConnectionField env f \<noteq> Inl TooManyRootFields"
proof -
  have "forEachRecursiveField (validateConnectionSubfield env (fst f) t) sels
          \<noteq> Inl TooManyRootFields" for t sels
    by (rule forEachRecursiveField_not_raised)
       (simp add: validateConnectionSubfield_def Let_def)
  then show ?thesis
    by (simp add: validateConnectionField_def Let_def split: option.splits)
qed

lemma validateMutationField_count: "validateMutationField env f \<noteq> Inl TooManyRootFields"
  by (simp add: validateMutationField_def Let_def)

lemma generateField_count: "generateField sch t n \<noteq> Inl TooManyRootFields"
  by (simp add: generateField_def split: option.splits)

lemma inputTypeMetadata_count: "inputTypeMetadata env f \<noteq> Inl TooManyRootFields"
  by (simp add: inputTypeMetadata_def split: option.splits)

lemma firstRootField_count: "firstRootField fs \<noteq> Inl TooManyRootFields"
  by (simp add: firstRootField_def split: list.splits)

lemma queryCalls_count: "queryCalls env as md \<noteq> Inl TooManyRootFields"
proof (cases as)
  case Nil
  then show ?thesis by (simp add: queryCalls_def)
next
  case (Cons a rest)
  show ?thesis
  proof (cases rest)
    case Nil
    show ?thesis
      unfolding queryCalls_def Cons Nil list.case Let_def
      by (intro bind_neq) (simp_all add: objectify_count printArgumentValue_count)
  next
    case (Cons b rest')
    with \<open>as = a # rest\<close> show ?thesis by (simp add: queryCalls_def)
  qed
qed

lemma printFragmentUsing_count:
  assumes "\<And>env t sels req extra gen. rec env t sels req extra gen \<noteq> Inl TooManyRootFields"
  shows "printFragmentUsing rec env fragment \<noteq> Inl TooManyRootFields"
proof -
  have c: "(case sv of None \<Rightarrow> Inr code
            | Some x \<Rightarrow> bind (printSelectVariables env x) (\<lambda>properties. Inr (g properties)))
           \<noteq> Inl TooManyRootFields" for sv code g
    by (cases sv) (simp_all add: bind_Inl_iff printSelectVariables_count)
  show ?thesis
    unfolding printFragmentUsing_def Let_def
    by (intro bind_neq assms printRelayDirectiveMetadata_count printDirectives_count c)
qed

lemma printFieldUsing_count:
  assumes "\<And>env t sels req extra gen. rec env t sels req extra gen \<noteq> Inl TooManyRootFields"
  shows "printFieldUsing rec env field parentType req gen isGen \<noteq> Inl TooManyRootFields"
proof -
  have a: "(if c then validateField f t else Inr ()) \<noteq> Inl TooManyRootFields" for c f t
    by (simp add: validateField_count)
  have b: "(if c then validateConnectionField env f else Inr ()) \<noteq> Inl TooManyRootFields" for c f
    by (simp add: validateConnectionField_count)
  have m: "mapM (printArgument env) as \<noteq> Inl TooManyRootFields" for as
    by (rule mapM_neq) (rule printArgument_count)
  show ?thesis
    unfolding printFieldUsing_def Let_def
    by (intro bind_neq assms a b m printRelayDirectiveMetadata_count printDirectives_count) simp
qed

lemma printFieldsUsing_count:
  assumes "\<And>env t sels req extra gen. rec env t sels req extra gen \<noteq> Inl TooManyRootFields"
  shows "printFieldsUsing rec env fs parentType req isGen \<noteq> Inl TooManyRootFields"
  unfolding printFieldsUsing_def Let_def
  by (intro bind_neq mapM_neq printFieldUsing_count[OF assms] generateField_count) simp

lemma printSelectionFragment_count:
  assumes "\<And>env t sels req extra gen. rec env t sels req extra gen \<noteq> Inl TooManyRootFields"
  shows "printSelectionFragment rec env sel \<noteq> Inl TooManyRootFields"
  by (cases sel)
     (auto simp: printSelectionFragment_def bind_Inl_iff printFragmentUsing_count[OF assms])

lemma printSelections_count:
  "printSelections n env t sels req extra gen \<noteq> Inl TooManyRootFields"
proof (induction n arbitrary: env t sels req extra gen)
  case 0
  show ?case by simp
next
  case (Suc n)
  have r: "\<And>env t sels req extra gen.
             printSelections n env t sels req extra gen \<noteq> Inl TooManyRootFields"
    by (rule Suc.IH)
  show ?case
    unfolding printSelections.simps
    by (intro bind_neq mapM_neq printSelectionFragment_count[OF r] printFragmentUsing_count[OF r]
          printFieldsUsing_count[OF r]) simp
qed

lemma printQuery_count:
  "printQuery n env queryName rootFields False \<noteq> Inl TooManyRootFields"
proof -
  have i: "(if c then Inl InvalidRootFieldArity else m) \<noteq> Inl TooManyRootFields"
    if "m \<noteq> Inl TooManyRootFields" for c and m :: "error + Printable"
    using that by simp
  show ?thesis
    unfolding printQuery_def
    apply (simp only: simp_thms if_False)
    apply (intro bind_neq firstRootField_count printSelections_count i queryCalls_count
        printDirectives_count objectify_count)
    apply simp
    done
qed

lemma printOperation_count:
  "printOperation n env kind cands opName rootFields ds False \<noteq> Inl TooManyRootFields"
  unfolding printOperation_def Let_def
  apply (simp only: simp_thms if_False)
  apply (intro bind_neq firstRootField_count validateMutationField_count printSelections_count
      inputTypeMetadata_count objectify_count printVariable_count printDirectives_count)
  apply simp
  done

text \<open>
  C6. With validation enabled, \<open>printQuery\<close>, \<open>printMutation\<close> and \<open>printSubscription\<close>
  raise \<open>TooManyRootFields\<close>, and so return no output, for any number of root fields other
  than one. With validation disabled none of them raises \<open>TooManyRootFields\<close>, whatever the
  number of root fields: the count is not looked at, and a definition with several root
  fields prints as the definition with its first root field alone does.
\<close>

theorem root_field_count_check:
  "(length rootFields \<noteq> 1 \<longrightarrow>
      printQuery n env queryName rootFields True = Inl TooManyRootFields
    \<and> printMutation n env mutationName rootFields ds True = Inl TooManyRootFields
    \<and> printSubscription n env subscriptionName rootFields ds True = Inl TooManyRootFields)
   \<and> printQuery n env queryName rootFields False \<noteq> Inl TooManyRootFields
   \<and> printMutation n env mutationName rootFields ds False \<noteq> Inl TooManyRootFields
   \<and> printSubscription n env subscriptionName rootFields ds False \<noteq> Inl TooManyRootFields
   \<and> printQuery n env queryName (f # rest) False = printQuery n env queryName [f] True
   \<and> printMutation n env mutationName (f # rest) ds False
        = printMutation n env mutationName [f] ds True
   \<and> printSubscription n env subscriptionName (f # rest) ds False
        = printSubscription n env subscriptionName [f] ds True"
proof -
  have a: "length rootFields \<noteq> 1 \<longrightarrow>
      printQuery n env queryName rootFields True = Inl TooManyRootFields
    \<and> printMutation n env mutationName rootFields ds True = Inl TooManyRootFields
    \<and> printSubscription n env subscriptionName rootFields ds True = Inl TooManyRootFields"
    by (simp add: printQuery_def printMutation_def printSubscription_def printOperation_def)
  have b: "printQuery n env queryName rootFields False \<noteq> Inl TooManyRootFields"
    by (rule printQuery_count)
  have c: "printMutation n env mutationName rootFields ds False \<noteq> Inl TooManyRootFields"
    unfolding printMutation_def by (rule printOperation_count)
  have d: "printSubscription n env subscriptionName rootFields ds False \<noteq> Inl TooManyRootFields"
    unfolding printSubscription_def by (rule printOperation_count)
  have e: "printQuery n env queryName (f # rest) False = printQuery n env queryName [f] True
   \<and> printMutation n env mutationName (f # rest) ds False
        = printMutation n env mutationName [f] ds True
   \<and> printSubscription n env subscriptionName (f # rest) ds False
        = printSubscription n env subscriptionName [f] ds True"
    by (simp add: printQuery_def printMutation_def printSubscription_def printOperation_def
        firstRootField_def)
  from a b c d e show ?thesis by blast
qed

lemma two_root_fields_example:
  "map_sum id (\<lambda>e. map printedFieldName (childrenOf e))
     (printQuery 2 exampleEnv ''Q''
        [nodeRootField [RelayQLField (fst (leafField ''name'' (namedType ''String''))) []]] True)
   = Inr [Some ''name'', Some ''id'', Some ''__typename'']"
  by code_simp

lemma one_root_field_query_example:
  "map_sum id (\<lambda>e. (objectProperty e ''kind'', objectProperty e ''name'',
                    map printedFieldName (childrenOf e)))
     (printQuery 2 exampleEnv ''Q''
        [nodeRootField [RelayQLField (fst (leafField ''name'' (namedType ''String''))) []]] True)
   = Inr (Some (StringLiteral ''Query''), Some (StringLiteral ''Q''),
          [Some ''name'', Some ''id'', Some ''__typename''])"
  by code_simp

lemma one_root_field_mutation_example:
  "map_sum id (\<lambda>e. (objectProperty e ''kind'', objectProperty e ''name'',
                    map printedFieldName (childrenOf e)))
     (printMutation 2 exampleEnv ''M'' [likeStoryField] [] True)
   = Inr (Some (StringLiteral ''Mutation''), Some (StringLiteral ''M''),
          [Some ''clientMutationId''])"
  by code_simp

lemma one_root_field_subscription_example:
  "map_sum id (\<lambda>e. (objectProperty e ''kind'', objectProperty e ''name'',
                    map printedFieldName (childrenOf e)))
     (printSubscription 2 exampleEnv ''S'' [likeStoryField] [] True)
   = Inr (Some (StringLiteral ''Subscription''), Some (StringLiteral ''S''),
          [Some ''clientMutationId''])"
  by code_simp

lemma no_root_field_example:
  "printQuery 2 exampleEnv ''Q'' [] False = Inl TypeError"
  "printMutation 2 exampleEnv ''M'' [] [] False = Inl TypeError"
  "printSubscription 2 exampleEnv ''S'' [] [] False = Inl TypeError"
  by code_simp+

theorem root_field_count_check_witness:
  "printQuery 2 exampleEnv ''Q'' [nodeRootField [], nodeRootField []] True = Inl TooManyRootFields
   \<and> printMutation 2 exampleEnv ''M'' [] [] True = Inl TooManyRootFields
   \<and> printSubscription 2 exampleEnv ''S'' [likeStoryField, likeStoryField] [] True
        = Inl TooManyRootFields
   \<and> map_sum id (\<lambda>e. (objectProperty e ''kind'', objectProperty e ''name'',
                      map printedFieldName (childrenOf e)))
        (printQuery 2 exampleEnv ''Q''
           [nodeRootField [RelayQLField (fst (leafField ''name'' (namedType ''String''))) []],
            nodeRootField []] False)
      = Inr (Some (StringLiteral ''Query''), Some (StringLiteral ''Q''),
             [Some ''name'', Some ''id'', Some ''__typename''])
   \<and> map_sum id (\<lambda>e. (objectProperty e ''kind'', objectProperty e ''name'',
                      map printedFieldName (childrenOf e)))
        (printMutation 2 exampleEnv ''M'' [likeStoryField, likeStoryField] [] False)
      = Inr (Some (StringLiteral ''Mutation''), Some (StringLiteral ''M''),
             [Some ''clientMutationId''])
   \<and> map_sum id (\<lambda>e. (objectProperty e ''kind'', objectProperty e ''name'',
                      map printedFieldName (childrenOf e)))
        (printSubscription 2 exampleEnv ''S'' [likeStoryField, likeStoryField] [] False)
      = Inr (Some (StringLiteral ''Subscription''), Some (StringLiteral ''S''),
             [Some ''clientMutationId''])
   \<and> printQuery 2 exampleEnv ''Q'' [] False = Inl TypeError
   \<and> printMutation 2 exampleEnv ''M'' [] [] False = Inl TypeError
   \<and> printSubscription 2 exampleEnv ''S'' [] [] False = Inl TypeError"
proof -
  have a: "printQuery 2 exampleEnv ''Q'' [nodeRootField [], nodeRootField []] True
             = Inl TooManyRootFields"
    using root_field_count_check
            [where rootFields = "[nodeRootField [], nodeRootField []]" and n = 2
               and env = exampleEnv and queryName = "''Q''"]
    by simp
  have b: "printMutation 2 exampleEnv ''M'' [] [] True = Inl TooManyRootFields"
    using root_field_count_check
            [where rootFields = "[]" and n = 2 and env = exampleEnv and mutationName = "''M''"
               and ds = "[]"]
    by simp
  have c: "printSubscription 2 exampleEnv ''S'' [likeStoryField, likeStoryField] [] True
             = Inl TooManyRootFields"
    using root_field_count_check
            [where rootFields = "[likeStoryField, likeStoryField]" and n = 2
               and env = exampleEnv and subscriptionName = "''S''" and ds = "[]"]
    by simp
  have q: "printQuery 2 exampleEnv ''Q''
           [nodeRootField [RelayQLField (fst (leafField ''name'' (namedType ''String''))) []],
            nodeRootField []] False
         = printQuery 2 exampleEnv ''Q''
           [nodeRootField [RelayQLField (fst (leafField ''name'' (namedType ''String''))) []]]
           True"
    using root_field_count_check
            [where n = 2 and env = exampleEnv and queryName = "''Q''"
               and f = "nodeRootField
                          [RelayQLField (fst (leafField ''name'' (namedType ''String''))) []]"
               and rest = "[nodeRootField []]"]
    by blast
  have m: "printMutation 2 exampleEnv ''M'' [likeStoryField, likeStoryField] [] False
         = printMutation 2 exampleEnv ''M'' [likeStoryField] [] True"
    using root_field_count_check
            [where n = 2 and env = exampleEnv and mutationName = "''M''" and ds = "[]"
               and f = likeStoryField and rest = "[likeStoryField]"]
    by blast
  have s: "printSubscription 2 exampleEnv ''S'' [likeStoryField, likeStoryField] [] False
         = printSubscription 2 exampleEnv ''S'' [likeStoryField] [] True"
    using root_field_count_check
            [where n = 2 and env = exampleEnv and subscriptionName = "''S''" and ds = "[]"
               and f = likeStoryField and rest = "[likeStoryField]"]
    by blast
  show ?thesis
    unfolding q m s
    using a b c one_root_field_query_example one_root_field_mutation_example
      one_root_field_subscription_example no_root_field_example
    by blast
qed

subsection \<open>Reading the properties of a printed object\<close>

lemma propertyValue_distinct:
  "distinct (map fst ps) \<Longrightarrow> (propertyValue ps k = Some v) = ((k, v) \<in> set ps)"
  by (simp add: propertyValue_def distinct_rev rev_map [symmetric])

lemma objectProperty_codify:
  assumes "distinct (map fst obj)" and "(k, v) \<in> set obj" and "v \<noteq> NULL"
  shows "objectProperty (codify obj) k = Some v"
proof -
  have "distinct (map fst (filter (\<lambda>kv. snd kv \<noteq> NULL) obj))"
    using assms(1) by (rule distinct_map_filter)
  then show ?thesis
    using assms(2,3) by (simp add: objectProperty_def codify_def propertyValue_distinct)
qed


lemma propertyNames_codify:
  "propertyNames (codify obj) = map fst (filter (\<lambda>kv. snd kv \<noteq> NULL) obj)"
  by (simp add: propertyNames_def codify_def)

lemma objectify_empty: "objectify [] = Inr (ObjectLiteralExpression [])"
  by (simp add: objectify_def)

subsection \<open>The argument of a mutation\<close>

lemma printOperation_Inr:
  assumes "printOperation n env kind cands opName [rootField] ds ev = Inr e"
  obtains callValue selections printedDirectives printedMetadata where
    "validateMutationField env (fst rootField) = Inr ()"
    "printVariable env ''input'' = Inr callValue"
    "e = codify
       [(''calls'',
         ArrayLiteralExpression
           [codify [(''kind'', StringLiteral ''Call''),
                    (''metadata'', ObjectLiteralExpression []),
                    (''name'', StringLiteral (field_getName (fst rootField))),
                    (''value'', callValue)]]),
        (''children'', selections),
        (''directives'', printedDirectives),
        (''kind'', StringLiteral kind),
        (''metadata'', printedMetadata),
        (''name'', StringLiteral opName),
        (''responseType'', StringLiteral (typeName (field_getType (fst rootField))))]"
  using assms
  by (auto simp: printOperation_def firstRootField_def bind_Inr_iff Let_def objectify_empty)

lemma printVariable_Inr:
  assumes "printVariable env n = Inr v"
  shows "v = (if n \<in> set (variableNames env)
              then CallExpression (PropertyAccessExpression (identify (tagName env)) ''__var'')
                     [Identifier n]
              else ObjectLiteralExpression [(''kind'', StringLiteral ''CallVariable''),
                                            (''callVariableName'', StringLiteral n)])"
  using assms by (auto simp: printVariable_def codify_def NULL_def split: if_splits)

lemma validateMutationField_Inr:
  "validateMutationField env f = Inr u \<longleftrightarrow>
     map fst (field_getDeclaredArguments f) = [INPUT_ARGUMENT_NAME (options env)]
     \<and> length (field_getArguments f) \<le> 1"
  by (cases "map fst (field_getDeclaredArguments f)")
     (auto simp: validateMutationField_def Let_def)

lemma validateMutationField_Inl:
  "validateMutationField env f = Inl e \<Longrightarrow> e = WrongMutationArgumentShape"
  by (auto simp: validateMutationField_def Let_def split: if_splits)

text \<open>
  C7 (as amended). Printing a mutation with one root field raises
  \<open>WrongMutationArgumentShape\<close> when the schema's root field declares a number of arguments
  other than one, or one argument whose name is not the configured input-argument name, or
  when more than one argument is applied. When it prints, the root field declares exactly
  the input argument and the single Call of the Mutation node has the root field's name
  and the value \<open>printVariable('input')\<close> returns: \<open>CallVariable("input")\<close>, unless \<open>input\<close>
  is one of the printer's substitution variable names, in which case it is the
  substitution reference \<open><tag>.__var(input)\<close>.
\<close>

theorem mutation_argument_shape:
  "((length (field_getDeclaredArguments (fst rootField)) \<noteq> 1
      \<or> (\<exists>a t. field_getDeclaredArguments (fst rootField) = [(a, t)]
                \<and> a \<noteq> INPUT_ARGUMENT_NAME (options env))
      \<or> length (field_getArguments (fst rootField)) > 1)
     \<longrightarrow> printMutation n env mutationName [rootField] ds ev = Inl WrongMutationArgumentShape)
   \<and> (printMutation n env mutationName [rootField] ds ev = Inr e \<longrightarrow>
        map fst (field_getDeclaredArguments (fst rootField)) = [INPUT_ARGUMENT_NAME (options env)]
      \<and> objectProperty e ''calls'' =
          Some (ArrayLiteralExpression
            [ObjectLiteralExpression
               [(''kind'', StringLiteral ''Call''),
                (''metadata'', ObjectLiteralExpression []),
                (''name'', StringLiteral (field_getName (fst rootField))),
                (''value'',
                 if ''input'' \<in> set (variableNames env)
                 then CallExpression
                        (PropertyAccessExpression (identify (tagName env)) ''__var'')
                        [Identifier ''input'']
                 else ObjectLiteralExpression
                        [(''kind'', StringLiteral ''CallVariable''),
                         (''callVariableName'', StringLiteral ''input'')])]]))"
proof (intro conjI impI)
  assume bad: "length (field_getDeclaredArguments (fst rootField)) \<noteq> 1
      \<or> (\<exists>a t. field_getDeclaredArguments (fst rootField) = [(a, t)]
                \<and> a \<noteq> INPUT_ARGUMENT_NAME (options env))
      \<or> length (field_getArguments (fst rootField)) > 1"
  have "validateMutationField env (fst rootField) \<noteq> Inr ()"
    using bad by (auto simp: validateMutationField_Inr)
  then have "validateMutationField env (fst rootField) = Inl WrongMutationArgumentShape"
    using validateMutationField_Inl
    by (cases "validateMutationField env (fst rootField)") auto
  then show "printMutation n env mutationName [rootField] ds ev = Inl WrongMutationArgumentShape"
    by (simp add: printMutation_def printOperation_def firstRootField_def)
next
  assume ok: "printMutation n env mutationName [rootField] ds ev = Inr e"
  then obtain callValue selections printedDirectives printedMetadata where
    v: "validateMutationField env (fst rootField) = Inr ()"
    and c: "printVariable env ''input'' = Inr callValue"
    and e: "e = codify
       [(''calls'',
         ArrayLiteralExpression
           [codify [(''kind'', StringLiteral ''Call''),
                    (''metadata'', ObjectLiteralExpression []),
                    (''name'', StringLiteral (field_getName (fst rootField))),
                    (''value'', callValue)]]),
        (''children'', selections),
        (''directives'', printedDirectives),
        (''kind'', StringLiteral ''Mutation''),
        (''metadata'', printedMetadata),
        (''name'', StringLiteral mutationName),
        (''responseType'', StringLiteral (typeName (field_getType (fst rootField))))]"
    unfolding printMutation_def by (rule printOperation_Inr)
  show "map fst (field_getDeclaredArguments (fst rootField)) = [INPUT_ARGUMENT_NAME (options env)]"
    using v by (simp add: validateMutationField_Inr)
  have call: "codify [(''kind'', StringLiteral ''Call''),
                      (''metadata'', ObjectLiteralExpression []),
                      (''name'', StringLiteral (field_getName (fst rootField))),
                      (''value'', callValue)]
            = ObjectLiteralExpression
               [(''kind'', StringLiteral ''Call''),
                (''metadata'', ObjectLiteralExpression []),
                (''name'', StringLiteral (field_getName (fst rootField))),
                (''value'', callValue)]"
    using printVariable_Inr[OF c] by (simp add: codify_def NULL_def)
  have "objectProperty e ''calls'' =
          Some (ArrayLiteralExpression
            [codify [(''kind'', StringLiteral ''Call''),
                     (''metadata'', ObjectLiteralExpression []),
                     (''name'', StringLiteral (field_getName (fst rootField))),
                     (''value'', callValue)]])"
    unfolding e by (rule objectProperty_codify) (simp_all add: NULL_def)
  then show "objectProperty e ''calls'' =
          Some (ArrayLiteralExpression
            [ObjectLiteralExpression
               [(''kind'', StringLiteral ''Call''),
                (''metadata'', ObjectLiteralExpression []),
                (''name'', StringLiteral (field_getName (fst rootField))),
                (''value'',
                 if ''input'' \<in> set (variableNames env)
                 then CallExpression
                        (PropertyAccessExpression (identify (tagName env)) ''__var'')
                        [Identifier ''input'']
                 else ObjectLiteralExpression
                        [(''kind'', StringLiteral ''CallVariable''),
                         (''callVariableName'', StringLiteral ''input'')])]])"
    unfolding call using printVariable_Inr[OF c] by simp
qed

lemma like_story_example:
  "map_sum id (\<lambda>e. objectProperty e ''calls'')
     (printMutation 2 exampleEnv ''Like'' [likeStoryField] [] True)
   = Inr (Some (ArrayLiteralExpression
       [ObjectLiteralExpression
          [(''kind'', StringLiteral ''Call''),
           (''metadata'', ObjectLiteralExpression []),
           (''name'', StringLiteral ''likeStory''),
           (''value'', ObjectLiteralExpression
              [(''kind'', StringLiteral ''CallVariable''),
               (''callVariableName'', StringLiteral ''input'')])]]))"
  by code_simp

theorem mutation_argument_shape_witness:
  "printMutation 2 exampleEnv ''Like'' [nodeRootField []] [] True = Inl WrongMutationArgumentShape
   \<and> map_sum id (\<lambda>e. objectProperty e ''calls'')
        (printMutation 2 exampleEnv ''Like'' [likeStoryField] [] True)
      = Inr (Some (ArrayLiteralExpression
          [ObjectLiteralExpression
             [(''kind'', StringLiteral ''Call''),
              (''metadata'', ObjectLiteralExpression []),
              (''name'', StringLiteral ''likeStory''),
              (''value'', ObjectLiteralExpression
                 [(''kind'', StringLiteral ''CallVariable''),
                  (''callVariableName'', StringLiteral ''input'')])]]))"
proof -
  obtain e where e: "printMutation 2 exampleEnv ''Like'' [likeStoryField] [] True = Inr e"
    using like_story_example
    by (cases "printMutation 2 exampleEnv ''Like'' [likeStoryField] [] True") auto
  have bad: "\<exists>a t. field_getDeclaredArguments (fst (nodeRootField [])) = [(a, t)]
              \<and> a \<noteq> INPUT_ARGUMENT_NAME (options exampleEnv)"
    by (simp add: nodeRootField_def INPUT_ARGUMENT_NAME_def exampleEnv_def)
  have free: "''input'' \<notin> set (variableNames exampleEnv)"
    by (simp add: exampleEnv_def)
  have a: "printMutation 2 exampleEnv ''Like'' [nodeRootField []] [] True
             = Inl WrongMutationArgumentShape"
    using mutation_argument_shape [of "nodeRootField []" exampleEnv 2 "''Like''" "[]" True e] bad
    by blast
  have b: "objectProperty e ''calls'' =
          Some (ArrayLiteralExpression
            [ObjectLiteralExpression
               [(''kind'', StringLiteral ''Call''),
                (''metadata'', ObjectLiteralExpression []),
                (''name'', StringLiteral (field_getName (fst likeStoryField))),
                (''value'',
                 if ''input'' \<in> set (variableNames exampleEnv)
                 then CallExpression
                        (PropertyAccessExpression (identify (tagName exampleEnv)) ''__var'')
                        [Identifier ''input'']
                 else ObjectLiteralExpression
                        [(''kind'', StringLiteral ''CallVariable''),
                         (''callVariableName'', StringLiteral ''input'')])]])"
    using mutation_argument_shape [of likeStoryField exampleEnv 2 "''Like''" "[]" True e] e
    by blast
  have d: "field_getName (fst likeStoryField) = ''likeStory''"
    by (simp add: likeStoryField_def)
  show ?thesis
    using a b d e free by simp
qed

text \<open>
  C7 as stated fails for a printer whose substitution variables include \<open>input\<close>: the
  Call's value is then the substitution reference \<open>RelayQL_GENERATED.__var(input)\<close>, not
  \<open>CallVariable("input")\<close>.
\<close>

theorem substitution_named_input_counterexample:
  "map_sum id (\<lambda>e. objectProperty e ''calls'')
     (printMutation 2 (exampleEnv\<lparr>variableNames := [''input'']\<rparr>) ''Like'' [likeStoryField] [] True)
   = Inr (Some (ArrayLiteralExpression
       [ObjectLiteralExpression
          [(''kind'', StringLiteral ''Call''),
           (''metadata'', ObjectLiteralExpression []),
           (''name'', StringLiteral ''likeStory''),
           (''value'', CallExpression
              (PropertyAccessExpression (Identifier ''RelayQL_GENERATED'') ''__var'')
              [Identifier ''input''])]]))"
  by code_simp

subsection \<open>Metadata from the @relay directive and from the printer\<close>

lemma printRelayDirectiveMetadata_Inr:
  assumes "printRelayDirectiveMetadata ds (Some md) = Inr m"
  obtains dps cps where
    "m = ObjectLiteralExpression (dps @ cps)"
    "list_all2 (\<lambda>kv p. fst p = fst kv \<and> createLiteral (snd kv) = Inr (snd p)) md cps"
proof -
  from assms obtain dps cps where
    m: "m = ObjectLiteralExpression (dps @ cps)"
    and c: "mapM (\<lambda>kv. bind (createLiteral (snd kv)) (\<lambda>l. Inr (fst kv, l))) md = Inr cps"
    by (auto simp: printRelayDirectiveMetadata_def bind_Inr_iff)
  have "list_all2 (\<lambda>kv p. fst p = fst kv \<and> createLiteral (snd kv) = Inr (snd p)) md cps"
    using mapM_Inr_list_all2[OF c]
    by (rule list_all2_mono) (auto simp: bind_Inr_iff)
  with m show ?thesis by (rule that)
qed

lemma computed_entry_last:
  assumes l: "list_all2 (\<lambda>kv p. fst p = fst kv \<and> createLiteral (snd kv) = Inr (snd p)) md cps"
    and d: "distinct (map fst md)" and k: "(k, v) \<in> set md"
  shows "\<exists>lit. createLiteral v = Inr lit \<and> propertyValue (dps @ cps) k = Some lit"
proof -
  have keys: "map fst cps = map fst md"
    using l by (induction rule: list_all2_induct) auto
  from list_all2_memberD[OF l k] obtain p where
    p: "p \<in> set cps" "fst p = k" "createLiteral v = Inr (snd p)" by auto
  have "distinct (map fst (rev cps))"
    using d keys by (simp add: distinct_rev rev_map [symmetric])
  moreover have "(k, snd p) \<in> set (rev cps)" using p by auto
  ultimately have "map_of (rev cps) k = Some (snd p)" by simp
  then have "propertyValue (dps @ cps) k = Some (snd p)"
    by (simp add: propertyValue_def map_add_find_right)
  with p(3) show ?thesis by blast
qed

lemma fieldMetadata_distinct: "distinct (map fst (fieldMetadata f r g))"
proof -
  have "distinct (map fst (fieldMetadataAssignments f r g))"
    by (simp add: fieldMetadataAssignments_def Let_def)
  then have "distinct (map fst (filter (\<lambda>a. snd (snd a)) (fieldMetadataAssignments f r g)))"
    by (rule distinct_map_filter)
  then show ?thesis
    by (simp add: fieldMetadata_def comp_def)
qed

lemma fieldMetadata_member:
  "(k, v) \<in> set (fieldMetadata f r g)
     \<longleftrightarrow> (k, v, True) \<in> set (fieldMetadataAssignments f r g)"
  by (force simp: fieldMetadata_def)

lemma printFieldUsing_Inr:
  assumes "printFieldUsing rec env field parentType req gen isGen = Inr e"
  obtains selections printedArgs printedDirectives metadata where
    "rec env (field_getType (fst field)) (snd field)
       (fieldRequisiteFields env (field_getType (fst field)))
       (idFragmentFor env (field_getType (fst field)) (snd field)) isGen = Inr selections"
    "mapM (printArgument env) (field_getArguments (fst field)) = Inr printedArgs"
    "printDirectives env (field_getDirectives (fst field)) = Inr printedDirectives"
    "printRelayDirectiveMetadata (field_getDirectives (fst field))
       (Some (fieldMetadata (fst field) req gen)) = Inr metadata"
    "e = codify
          [(''alias'', case field_getAlias (fst field) of
                         None \<Rightarrow> NULL
                       | Some a \<Rightarrow> if a = [] then NULL else StringLiteral a),
           (''calls'', if printedArgs \<noteq> [] then ArrayLiteralExpression printedArgs else NULL),
           (''children'', selections),
           (''directives'', printedDirectives),
           (''fieldName'', StringLiteral (field_getName (fst field))),
           (''kind'', StringLiteral ''Field''),
           (''metadata'', metadata),
           (''type'', StringLiteral (typeName (field_getType (fst field))))]"
  using assms by (auto simp: printFieldUsing_def bind_Inr_iff Let_def)

lemma printFieldUsing_metadata:
  assumes "printFieldUsing rec env field parentType req gen isGen = Inr e"
  shows "\<exists>m. objectProperty e ''metadata'' = Some m \<and>
           (\<forall>kv \<in> set (fieldMetadata (fst field) req gen).
              \<exists>lit. createLiteral (snd kv) = Inr lit \<and> objectProperty m (fst kv) = Some lit)"
proof -
  from assms obtain selections printedArgs printedDirectives metadata where
    md: "printRelayDirectiveMetadata (field_getDirectives (fst field))
       (Some (fieldMetadata (fst field) req gen)) = Inr metadata"
    and e: "e = codify
          [(''alias'', case field_getAlias (fst field) of
                         None \<Rightarrow> NULL
                       | Some a \<Rightarrow> if a = [] then NULL else StringLiteral a),
           (''calls'', if printedArgs \<noteq> [] then ArrayLiteralExpression printedArgs else NULL),
           (''children'', selections),
           (''directives'', printedDirectives),
           (''fieldName'', StringLiteral (field_getName (fst field))),
           (''kind'', StringLiteral ''Field''),
           (''metadata'', metadata),
           (''type'', StringLiteral (typeName (field_getType (fst field))))]"
    by (rule printFieldUsing_Inr)
  from md obtain dps cps where
    m: "metadata = ObjectLiteralExpression (dps @ cps)"
    and l: "list_all2 (\<lambda>kv p. fst p = fst kv \<and> createLiteral (snd kv) = Inr (snd p))
              (fieldMetadata (fst field) req gen) cps"
    by (rule printRelayDirectiveMetadata_Inr)
  have "objectProperty e ''metadata'' = Some metadata"
    unfolding e by (rule objectProperty_codify) (simp_all add: NULL_def m)
  moreover have "\<exists>lit. createLiteral (snd kv) = Inr lit \<and> objectProperty metadata (fst kv) = Some lit"
    if "kv \<in> set (fieldMetadata (fst field) req gen)" for kv
    using computed_entry_last[OF l fieldMetadata_distinct, of "fst kv" "snd kv" dps] that
    by (simp add: m objectProperty_def)
  ultimately show ?thesis by blast
qed






lemma abstract_fragment_example:
  "map_sum id (\<lambda>e. objectProperty e ''metadata'')
     (printFragment 2 exampleEnv abstractFragmentExample)
   = Inr (Some (ObjectLiteralExpression
       [(''isAbstract'', FalseLiteral), (''isAbstract'', TrueLiteral),
        (''isTrackingEnabled'', FalseLiteral)]))"
  by code_simp




subsection \<open>Properties left out of printed objects\<close>







lemma codify_has_key:
  assumes "distinct (map fst obj)" and "(k, v) \<in> set obj"
  shows "k \<in> set (propertyNames (codify obj)) \<longleftrightarrow> v \<noteq> NULL"
proof
  assume "k \<in> set (propertyNames (codify obj))"
  then obtain v' where "(k, v') \<in> set obj" "v' \<noteq> NULL"
    by (auto simp: propertyNames_codify)
  with assms show "v \<noteq> NULL" by (auto dest: eq_key_imp_eq_value)
next
  assume "v \<noteq> NULL"
  with assms(2) show "k \<in> set (propertyNames (codify obj))"
    by (force simp: propertyNames_codify)
qed



lemma directive_field_example:
  "printField 1 exampleEnv directiveFieldExample userType [] [] False
   = Inr (ObjectLiteralExpression
       [(''fieldName'', StringLiteral ''name''), (''kind'', StringLiteral ''Field''),
        (''metadata'', ObjectLiteralExpression [(''plural'', FalseLiteral)]),
        (''type'', StringLiteral ''String'')])"
  by code_simp






subsection \<open>Requisite fields in a printed selection set\<close>

lemma objSet_keys: "fst ` set (objSet k v obj) = insert k (fst ` set obj)"
proof (induction obj)
  case Nil
  show ?case by simp
next
  case (Cons p obj)
  obtain a b where p: "p = (a, b)" by (cases p)
  show ?case
  proof (cases "k = a")
    case True
    then show ?thesis by (simp add: p)
  next
    case False
    then have "fst ` set (objSet k v (p # obj)) = insert a (fst ` set (objSet k v obj))"
      by (simp add: p)
    also have "\<dots> = insert a (insert k (fst ` set obj))"
      by (simp only: Cons.IH)
    finally show ?thesis by (simp add: p insert_commute)
  qed
qed

lemma objSet_distinct: "distinct (map fst obj) \<Longrightarrow> distinct (map fst (objSet k v obj))"
proof (induction obj)
  case Nil
  show ?case by simp
next
  case (Cons p obj)
  obtain a b where p: "p = (a, b)" by (cases p)
  show ?case
  proof (cases "k = a")
    case True
    with Cons.prems show ?thesis by (simp add: p)
  next
    case False
    from Cons have "distinct (map fst (objSet k v obj))" by simp
    moreover from Cons.prems have "a \<notin> fst ` set obj" by (simp add: p)
    then have "a \<notin> fst ` set (objSet k v obj)"
      using False by (simp only: objSet_keys) simp
    ultimately show ?thesis using False by (simp add: p)
  qed
qed

lemma hasOwnProperty_objSet: "hasOwnProperty (objSet k v obj) k' \<longleftrightarrow> k' = k \<or> hasOwnProperty obj k'"
  by (simp add: hasOwnProperty_def objSet_keys)

lemma count_list_distinct: "distinct xs \<Longrightarrow> count_list xs x = (if x \<in> set xs then 1 else 0)"
  by (induction xs) auto

lemma count_list_map_Some: "count_list (map Some xs) (Some x) = count_list xs x"
  by (induction xs) auto

lemma count_list_app: "count_list (xs @ ys) x = count_list xs x + count_list ys x"
  by (induction xs) auto

lemma count_list_absent: "x \<notin> set xs \<Longrightarrow> count_list xs x = 0"
  by (induction xs) auto

lemma remainingGenerated_filter:
  "remainingGenerated fieldNodes req =
     filter (\<lambda>kv. fst kv \<notin> set (map (\<lambda>f. field_getName (fst f)) fieldNodes)) req"
  unfolding remainingGenerated_def objDelete_def
proof (induction fieldNodes arbitrary: req)
  case Nil
  then show ?case by simp
next
  case (Cons f fs)
  show ?case
    by (simp add: Cons.IH conj_commute)
qed

lemma fieldsWithGenerated_fst: "map fst (fieldsWithGenerated fieldNodes g) = fieldNodes"
  by (induction fieldNodes arbitrary: g) (simp_all add: Let_def)

lemma mapM_map_eq:
  assumes "mapM f xs = Inr ys" and "\<And>x y. x \<in> set xs \<Longrightarrow> f x = Inr y \<Longrightarrow> g y = h x"
  shows "map g ys = map h xs"
  using assms by (induction xs arbitrary: ys) (auto simp: bind_Inr_iff)

lemma mapM_all:
  assumes "mapM f xs = Inr ys" and "\<And>x y. x \<in> set xs \<Longrightarrow> f x = Inr y \<Longrightarrow> P y"
  shows "list_all P ys"
proof -
  have "list_all2 (\<lambda>y x. f x = Inr y) ys xs"
    using mapM_Inr_list_all2[OF assms(1)] by (simp add: list_all2_conv_all_nth)
  then have "\<exists>x \<in> set xs. f x = Inr y" if "y \<in> set ys" for y
    using list_all2_memberD that by fastforce
  then show ?thesis
    using assms(2) by (auto simp: list_all_iff)
qed

lemma objectProperty_absent: "k \<notin> set (propertyNames e) \<Longrightarrow> objectProperty e k = None"
  by (cases e) (auto simp: objectProperty_def propertyNames_def propertyValue_def
                  map_of_eq_None_iff)

lemma selectionArray_finishSelections: "selectionArray (finishSelections printed b) = printed"
  by (simp add: finishSelections_def selectionArray_def shallowFlatten_def NULL_def)

lemma childrenOf_codify:
  assumes "distinct (map fst obj)" and "(''children'', c) \<in> set obj"
    and "c = NULL \<Longrightarrow> selectionArray c = []"
  shows "childrenOf (codify obj) = selectionArray c"
proof (cases "c = NULL")
  case True
  then have "''children'' \<notin> set (propertyNames (codify obj))"
    using codify_has_key[OF assms(1,2)] by simp
  then show ?thesis
    using assms(3) True by (simp add: childrenOf_def objectProperty_absent)
next
  case False
  then show ?thesis
    using objectProperty_codify[OF assms(1,2)] by (simp add: childrenOf_def)
qed

lemma selectionArray_NULL: "selectionArray NULL = []"
  by (simp add: selectionArray_def NULL_def)

lemma printFieldUsing_name:
  assumes "printFieldUsing rec env field parentType req gen isGen = Inr e"
  shows "printedFieldName e = Some (field_getName (fst field))"
proof -
  from assms obtain selections printedArgs printedDirectives metadata where
    e: "e = codify
          [(''alias'', case field_getAlias (fst field) of
                         None \<Rightarrow> NULL
                       | Some a \<Rightarrow> if a = [] then NULL else StringLiteral a),
           (''calls'', if printedArgs \<noteq> [] then ArrayLiteralExpression printedArgs else NULL),
           (''children'', selections),
           (''directives'', printedDirectives),
           (''fieldName'', StringLiteral (field_getName (fst field))),
           (''kind'', StringLiteral ''Field''),
           (''metadata'', metadata),
           (''type'', StringLiteral (typeName (field_getType (fst field))))]"
    by (rule printFieldUsing_Inr)
  have "objectProperty e ''kind'' = Some (StringLiteral ''Field'')"
    unfolding e by (rule objectProperty_codify) (simp_all add: NULL_def)
  moreover have "objectProperty e ''fieldName'' = Some (StringLiteral (field_getName (fst field)))"
    unfolding e by (rule objectProperty_codify) (simp_all add: NULL_def)
  ultimately show ?thesis by (simp add: printedFieldName_def)
qed

lemma printFieldUsing_flags:
  assumes "printFieldUsing rec env field parentType req gen isGen = Inr e"
  shows "(hasOwnProperty req (field_getName (fst field)) \<longrightarrow> metadataFlag e ''isRequisite'')
       \<and> (hasOwnProperty gen (field_getName (fst field)) \<longrightarrow> metadataFlag e ''isGenerated'')"
proof -
  from printFieldUsing_metadata[OF assms] obtain m where
    m: "objectProperty e ''metadata'' = Some m"
    and c: "\<And>kv. kv \<in> set (fieldMetadata (fst field) req gen) \<Longrightarrow>
              \<exists>lit. createLiteral (snd kv) = Inr lit \<and> objectProperty m (fst kv) = Some lit"
    by blast
  have r: "metadataFlag e ''isRequisite''" if "hasOwnProperty req (field_getName (fst field))"
  proof -
    have "(''isRequisite'', JSBoolean True) \<in> set (fieldMetadata (fst field) req gen)"
      using that by (simp add: fieldMetadata_member fieldMetadataAssignments_def Let_def)
    from c[OF this] show ?thesis
      by (auto simp: metadataFlag_def m createLiteral_def)
  qed
  have g: "metadataFlag e ''isGenerated''" if "hasOwnProperty gen (field_getName (fst field))"
  proof -
    have "(''isGenerated'', JSBoolean True) \<in> set (fieldMetadata (fst field) req gen)"
      using that by (simp add: fieldMetadata_member fieldMetadataAssignments_def Let_def)
    from c[OF this] show ?thesis
      by (auto simp: metadataFlag_def m createLiteral_def)
  qed
  from r g show ?thesis by blast
qed

lemma generateField_name:
  "generateField sch parentType k = Inr generatedField \<Longrightarrow> field_getName (fst generatedField) = k"
  by (auto simp: generateField_def split: option.splits)


lemma printFieldsUsing_Inr:
  assumes "printFieldsUsing rec env fieldNodes parentType req isGen = Inr printed"
  obtains requested generated where
    "printed = requested @ generated"
    "map printedFieldName requested = map (\<lambda>f. Some (field_getName (fst f))) fieldNodes"
    "map printedFieldName generated =
       map Some (map fst (remainingGenerated fieldNodes
                            (withPageInfo env fieldNodes parentType req)))"
    "list_all (\<lambda>e. \<forall>k. printedFieldName e = Some k \<longrightarrow>
                     hasOwnProperty (withPageInfo env fieldNodes parentType req) k \<longrightarrow>
                     metadataFlag e ''isRequisite'') printed"
    "list_all (\<lambda>e. metadataFlag e ''isGenerated'') generated"
proof -
  let ?req = "withPageInfo env fieldNodes parentType req"
  let ?gen = "remainingGenerated fieldNodes ?req"
  let ?P = "\<lambda>e. \<forall>k. printedFieldName e = Some k \<longrightarrow> hasOwnProperty ?req k \<longrightarrow>
                   metadataFlag e ''isRequisite''"
  from assms obtain requested generated where
    r: "mapM (\<lambda>fg. printFieldUsing rec env (fst fg) parentType ?req (snd fg) isGen)
          (fieldsWithGenerated fieldNodes ?req) = Inr requested"
    and g: "mapM (\<lambda>fieldName.
                   bind (generateField (schema env) parentType fieldName) (\<lambda>generatedField.
                     printFieldUsing rec env generatedField parentType ?req ?gen isGen))
              (map fst ?gen) = Inr generated"
    and p: "printed = requested @ generated"
    by (auto simp: printFieldsUsing_def bind_Inr_iff Let_def)
  have n1: "map printedFieldName requested
              = map (\<lambda>fg. Some (field_getName (fst (fst fg)))) (fieldsWithGenerated fieldNodes ?req)"
    using r by (rule mapM_map_eq) (rule printFieldUsing_name)
  have "map (\<lambda>fg. Some (field_getName (fst (fst fg)))) (fieldsWithGenerated fieldNodes ?req)
          = map (\<lambda>f. Some (field_getName (fst f))) (map fst (fieldsWithGenerated fieldNodes ?req))"
    by (simp add: comp_def)
  with n1 have names1: "map printedFieldName requested
                          = map (\<lambda>f. Some (field_getName (fst f))) fieldNodes"
    by (simp add: fieldsWithGenerated_fst)
  have names2: "map printedFieldName generated = map Some (map fst ?gen)"
  proof -
    have "map printedFieldName generated = map (\<lambda>k. Some k) (map fst ?gen)"
      using g
    proof (rule mapM_map_eq)
      fix x y
      assume "bind (generateField (schema env) parentType x) (\<lambda>generatedField.
                 printFieldUsing rec env generatedField parentType ?req ?gen isGen) = Inr y"
      then obtain gf where gf: "generateField (schema env) parentType x = Inr gf"
        and y: "printFieldUsing rec env gf parentType ?req ?gen isGen = Inr y"
        by (auto simp: bind_Inr_iff)
      show "printedFieldName y = Some x"
        using printFieldUsing_name[OF y] generateField_name[OF gf] by simp
    qed
    then show ?thesis by simp
  qed
  have q1: "list_all ?P requested"
    using r
  proof (rule mapM_all)
    fix fg y
    assume y: "printFieldUsing rec env (fst fg) parentType ?req (snd fg) isGen = Inr y"
    show "?P y"
      using printFieldUsing_name[OF y] printFieldUsing_flags[OF y] by simp
  qed
  have q2: "list_all (\<lambda>e. ?P e \<and> metadataFlag e ''isGenerated'') generated"
    using g
  proof (rule mapM_all)
    fix x y
    assume x: "x \<in> set (map fst ?gen)"
      and "bind (generateField (schema env) parentType x) (\<lambda>generatedField.
                 printFieldUsing rec env generatedField parentType ?req ?gen isGen) = Inr y"
    then obtain gf where gf: "generateField (schema env) parentType x = Inr gf"
      and y: "printFieldUsing rec env gf parentType ?req ?gen isGen = Inr y"
      by (auto simp: bind_Inr_iff)
    from x have "hasOwnProperty ?gen (field_getName (fst gf))"
      using generateField_name[OF gf] by (simp add: hasOwnProperty_def)
    with printFieldUsing_flags[OF y] have "metadataFlag y ''isGenerated''" by blast
    moreover have "?P y"
      using printFieldUsing_name[OF y] printFieldUsing_flags[OF y] by simp
    ultimately show "?P y \<and> metadataFlag y ''isGenerated''" by blast
  qed
  have a: "list_all ?P printed"
    using q1 q2 unfolding p list_all_iff by auto
  have b: "list_all (\<lambda>e. metadataFlag e ''isGenerated'') generated"
    using q2 by (simp add: list_all_iff)
  show ?thesis
    by (rule that[OF p names1 names2 a b])
qed

lemma withPageInfo_distinct:
  "distinct (map fst req) \<Longrightarrow> distinct (map fst (withPageInfo env fieldNodes parentType req))"
  by (simp add: withPageInfo_def objSet_distinct)

lemma withPageInfo_keeps:
  "hasOwnProperty req k \<Longrightarrow> hasOwnProperty (withPageInfo env fieldNodes parentType req) k"
  by (simp add: withPageInfo_def hasOwnProperty_objSet)

lemma printFieldsUsing_requisite:
  assumes p: "printFieldsUsing rec env fieldNodes parentType req isGen = Inr printed"
    and d: "distinct (map fst req)"
    and k: "hasOwnProperty (withPageInfo env fieldNodes parentType req) k"
  shows "count_list (map printedFieldName printed) (Some k) =
           (if k \<in> set (map (\<lambda>f. field_getName (fst f)) fieldNodes)
            then count_list (map (\<lambda>f. field_getName (fst f)) fieldNodes) k else 1)
       \<and> list_all (\<lambda>e. printedFieldName e \<noteq> Some k \<or> metadataFlag e ''isRequisite'') printed
       \<and> (k \<in> set (map (\<lambda>f. field_getName (fst f)) fieldNodes) \<or>
          list_all (\<lambda>e. printedFieldName e \<noteq> Some k \<or> metadataFlag e ''isGenerated'') printed)"
proof -
  let ?names = "map (\<lambda>f. field_getName (fst f)) fieldNodes"
  let ?req = "withPageInfo env fieldNodes parentType req"
  let ?keys = "map fst (remainingGenerated fieldNodes ?req)"
  from p obtain requested generated where
    pr: "printed = requested @ generated"
    and n1: "map printedFieldName requested = map (\<lambda>f. Some (field_getName (fst f))) fieldNodes"
    and n2: "map printedFieldName generated = map Some ?keys"
    and f1: "list_all (\<lambda>e. \<forall>k. printedFieldName e = Some k \<longrightarrow> hasOwnProperty ?req k \<longrightarrow>
                     metadataFlag e ''isRequisite'') printed"
    and f2: "list_all (\<lambda>e. metadataFlag e ''isGenerated'') generated"
    by (rule printFieldsUsing_Inr)
  have n1': "map printedFieldName requested = map Some ?names"
    using n1 by (simp add: comp_def)
  have dk: "distinct ?keys"
    unfolding remainingGenerated_filter
    using withPageInfo_distinct[OF d] by (rule distinct_map_filter)
  have mem: "k \<in> set ?keys \<longleftrightarrow> k \<notin> set ?names"
  proof
    assume "k \<in> set ?keys"
    then obtain kv where "kv \<in> set (remainingGenerated fieldNodes ?req)" "fst kv = k"
      by auto
    then show "k \<notin> set ?names"
      unfolding remainingGenerated_filter by simp
  next
    assume nk: "k \<notin> set ?names"
    from k obtain kv where kv: "kv \<in> set ?req" "fst kv = k"
      unfolding hasOwnProperty_def by auto
    with nk have "kv \<in> set (remainingGenerated fieldNodes ?req)"
      unfolding remainingGenerated_filter by simp
    with kv(2) show "k \<in> set ?keys" by force
  qed
  have "count_list (map printedFieldName printed) (Some k)
          = count_list ?names k + count_list ?keys k"
    by (simp add: pr n1' n2 count_list_app count_list_map_Some del: map_map)
  also have "\<dots> = (if k \<in> set ?names then count_list ?names k else 1)"
    using count_list_distinct[OF dk, of k] mem count_list_absent[of k ?names] by simp
  finally have c: "count_list (map printedFieldName printed) (Some k)
                     = (if k \<in> set ?names then count_list ?names k else 1)" .
  have r: "list_all (\<lambda>e. printedFieldName e \<noteq> Some k \<or> metadataFlag e ''isRequisite'') printed"
    using f1 k unfolding list_all_iff by blast
  have g: "list_all (\<lambda>e. printedFieldName e \<noteq> Some k \<or> metadataFlag e ''isGenerated'') printed"
    if nk: "k \<notin> set ?names"
  proof -
    have "printedFieldName e \<noteq> Some k" if "e \<in> set requested" for e
    proof
      assume "printedFieldName e = Some k"
      with that have "Some k \<in> set (map printedFieldName requested)" by force
      with nk show False unfolding n1' by auto
    qed
    then show ?thesis
      using f2 unfolding pr list_all_iff by auto
  qed
  from c r g show ?thesis by blast
qed

lemma printFragmentUsing_children:
  assumes "printFragmentUsing rec env fragment = Inr e"
  obtains selections printedDirectives metadata where
    "rec env (fragment_getType (fst fragment)) (snd fragment)
       (fragmentRequisiteFields env (fragment_getType (fst fragment)))
       (idFragmentFor env (fragment_getType (fst fragment)) (snd fragment))
       (list_ex (\<lambda>d. directive_getName d = ''generated'') (fragment_getDirectives (fst fragment)))
       = Inr selections"
    "fragmentCodeOf e = codify
          [(''children'', selections),
           (''directives'', printedDirectives),
           (''id'', printFragmentID env),
           (''kind'', StringLiteral ''Fragment''),
           (''metadata'', metadata),
           (''name'', StringLiteral (fragment_getName (fst fragment))),
           (''type'', StringLiteral (typeName (fragment_getType (fst fragment))))]"
    "e = fragmentCodeOf e \<or> (\<exists>f properties. e = CallExpression f [fragmentCodeOf e, properties])"
  using assms
  by (auto simp: printFragmentUsing_def bind_Inr_iff Let_def fragmentCodeOf_def codify_def
           split: option.splits)

lemma printFragmentUsing_not_field:
  assumes "printFragmentUsing rec env fragment = Inr e"
  shows "printedFieldName e = None"
proof -
  from assms obtain selections printedDirectives metadata where
    c: "fragmentCodeOf e = codify
          [(''children'', selections),
           (''directives'', printedDirectives),
           (''id'', printFragmentID env),
           (''kind'', StringLiteral ''Fragment''),
           (''metadata'', metadata),
           (''name'', StringLiteral (fragment_getName (fst fragment))),
           (''type'', StringLiteral (typeName (fragment_getType (fst fragment))))]"
    and e: "e = fragmentCodeOf e \<or> (\<exists>f properties. e = CallExpression f [fragmentCodeOf e, properties])"
    by (rule printFragmentUsing_children)
  have "objectProperty (fragmentCodeOf e) ''kind'' = Some (StringLiteral ''Fragment'')"
    unfolding c by (rule objectProperty_codify) (simp_all add: NULL_def)
  then have a: "printedFieldName (fragmentCodeOf e) = None"
    by (simp add: printedFieldName_def)
  from e show ?thesis
  proof
    assume "e = fragmentCodeOf e"
    with a show ?thesis by simp
  next
    assume "\<exists>f properties. e = CallExpression f [fragmentCodeOf e, properties]"
    then obtain f properties where "e = CallExpression f [fragmentCodeOf e, properties]" by blast
    then have "objectProperty e ''kind'' = None"
      by (cases e) (simp_all add: objectProperty_def)
    then show ?thesis by (simp add: printedFieldName_def)
  qed
qed

lemma printSelectionFragment_not_field:
  assumes "printSelectionFragment rec env selection = Inr ys"
  shows "list_all (\<lambda>y. printedFieldName y = None) ys"
proof (cases selection)
  case (RelayQLField field sels)
  with assms show ?thesis by (simp add: printSelectionFragment_def)
next
  case (RelayQLFragmentSpread spreadName ds)
  with assms show ?thesis
    by (auto simp: printSelectionFragment_def printFragmentReference_def printedFieldName_def
          objectProperty_def split: if_splits)
next
  case (RelayQLInlineFragment fragment sels)
  with assms show ?thesis
    by (auto simp: printSelectionFragment_def bind_Inr_iff dest: printFragmentUsing_not_field)
qed

lemma printSelections_requisite:
  assumes p: "printSelections n env parentType sels req extra gen = Inr c"
    and d: "distinct (map fst req)"
    and k: "hasOwnProperty (withPageInfo env (selectedFields sels) parentType req) k"
  shows "printsRequisite (selectionArray c) sels k"
proof -
  from p obtain m fromSelections fromExtra printedFields where
    s: "mapM (printSelectionFragment (printSelections m) env) sels = Inr fromSelections"
    and x: "mapM (printFragmentUsing (printSelections m) env) extra = Inr fromExtra"
    and f: "printFieldsUsing (printSelections m) env (selectedFields sels) parentType req gen
              = Inr printedFields"
    and c: "c = finishSelections (printedFields @ concat fromSelections @ fromExtra)
                  (list_ex isFragmentSpread sels)"
    by (rule printSelections_Inr)
  let ?others = "concat fromSelections @ fromExtra"
  have a1: "list_all (\<lambda>ys. list_all (\<lambda>y. printedFieldName y = None) ys) fromSelections"
    using s by (rule mapM_all) (rule printSelectionFragment_not_field)
  have a2: "list_all (\<lambda>y. printedFieldName y = None) fromExtra"
    using x by (rule mapM_all) (rule printFragmentUsing_not_field)
  have others: "printedFieldName y = None" if "y \<in> set ?others" for y
    using a1 a2 that unfolding list_all_iff by auto
  have arr: "selectionArray c = printedFields @ ?others"
    by (simp add: c selectionArray_finishSelections)
  have zero: "count_list (map printedFieldName ?others) (Some k) = 0"
    by (rule count_list_absent) (use others in force)
  note r = printFieldsUsing_requisite[OF f d k]
  have cnt: "count_list (map printedFieldName (selectionArray c)) (Some k) =
           (if k \<in> set (requestedNames sels) then count_list (requestedNames sels) k else 1)"
    using r zero unfolding arr requestedNames_def by (simp add: count_list_app)
  have no: "list_all (\<lambda>e. printedFieldName e \<noteq> Some k \<or> metadataFlag e flag) ?others" for flag
    unfolding list_all_iff using others by simp
  have rq: "list_all (\<lambda>e. printedFieldName e \<noteq> Some k \<or> metadataFlag e ''isRequisite'')
              (selectionArray c)"
    using r no[of "''isRequisite''"] unfolding arr by simp
  have gn: "k \<in> set (requestedNames sels) \<or>
            list_all (\<lambda>e. printedFieldName e \<noteq> Some k \<or> metadataFlag e ''isGenerated'')
              (selectionArray c)"
    using r no[of "''isGenerated''"] unfolding arr requestedNames_def by auto
  from cnt rq gn show ?thesis unfolding printsRequisite_def by blast
qed




lemma fragmentRequisiteFields_distinct: "distinct (map fst (fragmentRequisiteFields env t))"
  by (simp add: fragmentRequisiteFields_def Let_def objSet_distinct)

lemma fieldRequisiteFields_distinct: "distinct (map fst (fieldRequisiteFields env t))"
  by (simp add: fieldRequisiteFields_def Let_def objSet_distinct)

lemma queryRequisiteFields_distinct: "distinct (map fst (queryRequisiteFields env t))"
  by (simp add: queryRequisiteFields_def Let_def objSet_distinct split: option.splits)

lemma typename_requisite_key:
  assumes "isAbstract t"
  shows "hasOwnProperty (fragmentRequisiteFields env t) (FIELDS (options env) ''__typename'')"
    and "hasOwnProperty (fieldRequisiteFields env t) (FIELDS (options env) ''__typename'')"
    and "hasOwnProperty (queryRequisiteFields env t) (FIELDS (options env) ''__typename'')"
  using assms
  by (simp_all add: fragmentRequisiteFields_def fieldRequisiteFields_def
        queryRequisiteFields_def Let_def hasOwnProperty_objSet)

lemma pageInfo_requisite_key:
  assumes "isConnection t"
    and "hasField (schema env) t (FIELDS (options env) ''pageInfo'')"
    and "FIELDS (options env) ''edges'' \<in> set (requestedNames sels)"
  shows "hasOwnProperty (withPageInfo env (selectedFields sels) t req)
           (FIELDS (options env) ''pageInfo'')"
proof -
  from assms(3) have "list_ex (\<lambda>field. field_getName (fst field) = FIELDS (options env) ''edges'')
                        (selectedFields sels)"
    by (force simp: requestedNames_def list_ex_iff)
  with assms(1,2) show ?thesis
    by (simp add: withPageInfo_def hasOwnProperty_objSet)
qed




lemma printQuery_Inr:
  assumes "printQuery n env queryName (rootField # rest) ev = Inr e"
  obtains calls selections printedDirectives printedMetadata where
    "printSelections n env (field_getType (fst rootField)) (snd rootField)
       (queryRequisiteFields env (field_getType (fst rootField))) [] False = Inr selections"
    "e = codify
           [(''calls'', calls),
            (''children'', selections),
            (''directives'', printedDirectives),
            (''fieldName'', StringLiteral (field_getName (fst rootField))),
            (''kind'', StringLiteral ''Query''),
            (''metadata'', printedMetadata),
            (''name'', StringLiteral queryName),
            (''type'', StringLiteral (typeName (field_getType (fst rootField))))]"
  using assms
  by (auto simp: printQuery_def firstRootField_def bind_Inr_iff split: if_splits)




lemma printField_children:
  assumes "printField n env field parentType rs gs isGen = Inr e"
  obtains selections where
    "printSelections n env (field_getType (fst field)) (snd field)
       (fieldRequisiteFields env (field_getType (fst field)))
       (idFragmentFor env (field_getType (fst field)) (snd field)) isGen = Inr selections"
    "childrenOf e = selectionArray selections"
proof -
  from assms[unfolded printField_def] obtain selections printedArgs printedDirectives metadata where
    s: "printSelections n env (field_getType (fst field)) (snd field)
       (fieldRequisiteFields env (field_getType (fst field)))
       (idFragmentFor env (field_getType (fst field)) (snd field)) isGen = Inr selections"
    and e: "e = codify
          [(''alias'', case field_getAlias (fst field) of
                         None \<Rightarrow> NULL
                       | Some a \<Rightarrow> if a = [] then NULL else StringLiteral a),
           (''calls'', if printedArgs \<noteq> [] then ArrayLiteralExpression printedArgs else NULL),
           (''children'', selections),
           (''directives'', printedDirectives),
           (''fieldName'', StringLiteral (field_getName (fst field))),
           (''kind'', StringLiteral ''Field''),
           (''metadata'', metadata),
           (''type'', StringLiteral (typeName (field_getType (fst field))))]"
    by (rule printFieldUsing_Inr)
  have "childrenOf e = selectionArray selections"
    unfolding e by (rule childrenOf_codify) (simp_all add: selectionArray_NULL)
  with s show ?thesis by (rule that)
qed




text \<open>
  C4 (as amended). For a query, a fragment or a field whose type is abstract, the printed
  selection set holds the typename field as often as the selection set requests it
  itself, and exactly once, as a generated field, when it does not request it; every
  printed typename field is marked \<open>isRequisite\<close>, and no generated copy is printed beside a
  requested one.
\<close>

theorem typename_requisite:
  "(printQuery n env queryName (rootField # rest) ev = Inr e
      \<and> isAbstract (field_getType (fst rootField)) \<longrightarrow>
        printsRequisite (childrenOf e) (snd rootField) (FIELDS (options env) ''__typename''))
   \<and> (printFragment n env fragment = Inr e'
      \<and> isAbstract (fragment_getType (fst fragment)) \<longrightarrow>
        printsRequisite (childrenOf (fragmentCodeOf e')) (snd fragment)
          (FIELDS (options env) ''__typename''))
   \<and> (printField n env field parentType rs gs isGen = Inr e''
      \<and> isAbstract (field_getType (fst field)) \<longrightarrow>
        printsRequisite (childrenOf e'') (snd field) (FIELDS (options env) ''__typename''))"
proof (intro conjI impI)
  assume a: "printQuery n env queryName (rootField # rest) ev = Inr e
      \<and> isAbstract (field_getType (fst rootField))"
  then have p: "printQuery n env queryName (rootField # rest) ev = Inr e"
    and ab: "isAbstract (field_getType (fst rootField))" by simp_all
  from p obtain calls selections printedDirectives printedMetadata where
    s: "printSelections n env (field_getType (fst rootField)) (snd rootField)
       (queryRequisiteFields env (field_getType (fst rootField))) [] False = Inr selections"
    and e: "e = codify
           [(''calls'', calls),
            (''children'', selections),
            (''directives'', printedDirectives),
            (''fieldName'', StringLiteral (field_getName (fst rootField))),
            (''kind'', StringLiteral ''Query''),
            (''metadata'', printedMetadata),
            (''name'', StringLiteral queryName),
            (''type'', StringLiteral (typeName (field_getType (fst rootField))))]"
    by (rule printQuery_Inr)
  have c: "childrenOf e = selectionArray selections"
    unfolding e by (rule childrenOf_codify) (simp_all add: selectionArray_NULL)
  have k: "hasOwnProperty
             (withPageInfo env (selectedFields (snd rootField)) (field_getType (fst rootField))
                (queryRequisiteFields env (field_getType (fst rootField))))
             (FIELDS (options env) ''__typename'')"
    by (rule withPageInfo_keeps) (rule typename_requisite_key(3)[OF ab])
  show "printsRequisite (childrenOf e) (snd rootField) (FIELDS (options env) ''__typename'')"
    unfolding c by (rule printSelections_requisite[OF s queryRequisiteFields_distinct k])
next
  assume a: "printFragment n env fragment = Inr e'
      \<and> isAbstract (fragment_getType (fst fragment))"
  then have p: "printFragmentUsing (printSelections n) env fragment = Inr e'"
    and ab: "isAbstract (fragment_getType (fst fragment))"
    by (simp_all add: printFragment_def)
  from p obtain selections printedDirectives metadata where
    s: "printSelections n env (fragment_getType (fst fragment)) (snd fragment)
       (fragmentRequisiteFields env (fragment_getType (fst fragment)))
       (idFragmentFor env (fragment_getType (fst fragment)) (snd fragment))
       (list_ex (\<lambda>d. directive_getName d = ''generated'') (fragment_getDirectives (fst fragment)))
       = Inr selections"
    and e: "fragmentCodeOf e' = codify
          [(''children'', selections),
           (''directives'', printedDirectives),
           (''id'', printFragmentID env),
           (''kind'', StringLiteral ''Fragment''),
           (''metadata'', metadata),
           (''name'', StringLiteral (fragment_getName (fst fragment))),
           (''type'', StringLiteral (typeName (fragment_getType (fst fragment))))]"
    by (rule printFragmentUsing_children)
  have c: "childrenOf (fragmentCodeOf e') = selectionArray selections"
    unfolding e by (rule childrenOf_codify) (simp_all add: selectionArray_NULL)
  have k: "hasOwnProperty
             (withPageInfo env (selectedFields (snd fragment)) (fragment_getType (fst fragment))
                (fragmentRequisiteFields env (fragment_getType (fst fragment))))
             (FIELDS (options env) ''__typename'')"
    by (rule withPageInfo_keeps) (rule typename_requisite_key(1)[OF ab])
  show "printsRequisite (childrenOf (fragmentCodeOf e')) (snd fragment)
          (FIELDS (options env) ''__typename'')"
    unfolding c by (rule printSelections_requisite[OF s fragmentRequisiteFields_distinct k])
next
  assume a: "printField n env field parentType rs gs isGen = Inr e''
      \<and> isAbstract (field_getType (fst field))"
  then have p: "printField n env field parentType rs gs isGen = Inr e''"
    and ab: "isAbstract (field_getType (fst field))" by simp_all
  from p obtain selections where
    s: "printSelections n env (field_getType (fst field)) (snd field)
       (fieldRequisiteFields env (field_getType (fst field)))
       (idFragmentFor env (field_getType (fst field)) (snd field)) isGen = Inr selections"
    and c: "childrenOf e'' = selectionArray selections"
    by (rule printField_children)
  have k: "hasOwnProperty
             (withPageInfo env (selectedFields (snd field)) (field_getType (fst field))
                (fieldRequisiteFields env (field_getType (fst field))))
             (FIELDS (options env) ''__typename'')"
    by (rule withPageInfo_keeps) (rule typename_requisite_key(2)[OF ab])
  show "printsRequisite (childrenOf e'') (snd field) (FIELDS (options env) ''__typename'')"
    unfolding c by (rule printSelections_requisite[OF s fieldRequisiteFields_distinct k])
qed

text \<open>
  C3 (as amended). For a connection field whose type declares a \<open>pageInfo\<close> field and whose
  own selections request \<open>edges\<close>, the printed field list holds \<open>pageInfo\<close> as often as the
  selections request it, and exactly once, as a generated field marked \<open>isGenerated\<close>, when
  they do not; every printed \<open>pageInfo\<close> is marked \<open>isRequisite\<close>.
\<close>

theorem pageInfo_requisite:
  "printField n env field parentType rs gs isGen = Inr e
     \<and> isConnection (field_getType (fst field))
     \<and> hasField (schema env) (field_getType (fst field)) (FIELDS (options env) ''pageInfo'')
     \<and> FIELDS (options env) ''edges'' \<in> set (requestedNames (snd field))
   \<longrightarrow> printsRequisite (childrenOf e) (snd field) (FIELDS (options env) ''pageInfo'')"
proof
  assume a: "printField n env field parentType rs gs isGen = Inr e
     \<and> isConnection (field_getType (fst field))
     \<and> hasField (schema env) (field_getType (fst field)) (FIELDS (options env) ''pageInfo'')
     \<and> FIELDS (options env) ''edges'' \<in> set (requestedNames (snd field))"
  then have p: "printField n env field parentType rs gs isGen = Inr e"
    and a1: "isConnection (field_getType (fst field))"
    and a2: "hasField (schema env) (field_getType (fst field)) (FIELDS (options env) ''pageInfo'')"
    and a3: "FIELDS (options env) ''edges'' \<in> set (requestedNames (snd field))"
    by simp_all
  from p obtain selections where
    s: "printSelections n env (field_getType (fst field)) (snd field)
       (fieldRequisiteFields env (field_getType (fst field)))
       (idFragmentFor env (field_getType (fst field)) (snd field)) isGen = Inr selections"
    and c: "childrenOf e = selectionArray selections"
    by (rule printField_children)
  note k = pageInfo_requisite_key[OF a1 a2 a3,
             of "fieldRequisiteFields env (field_getType (fst field))"]
  show "printsRequisite (childrenOf e) (snd field) (FIELDS (options env) ''pageInfo'')"
    unfolding c by (rule printSelections_requisite[OF s fieldRequisiteFields_distinct k])
qed



lemma abstract_field_example:
  "map_sum id (\<lambda>e. map printedFieldName (childrenOf e))
     (printField 2 exampleEnv
        (nodeRootField [RelayQLField (fst (leafField ''name'' (namedType ''String''))) []])
        ((namedType ''Query'')\<lparr> isQueryType := True \<rparr>) [] [] False)
   = Inr [Some ''name'', Some ''id'', Some ''__typename'']"
  by code_simp

lemma abstract_fragment_children_example:
  "map_sum id (\<lambda>e. map printedFieldName (childrenOf (fragmentCodeOf e)))
     (printFragment 2 exampleEnv abstractFragmentExample)
   = Inr [Some ''id'', Some ''__typename'']"
  by code_simp

theorem typename_requisite_witness:
  "map_sum id (\<lambda>e. printsRequisite (childrenOf e)
                      [RelayQLField (fst (leafField ''name'' (namedType ''String''))) []]
                      ''__typename'')
     (printQuery 2 exampleEnv ''Q''
        [nodeRootField [RelayQLField (fst (leafField ''name'' (namedType ''String''))) []]] True)
     = Inr True
   \<and> map_sum id (\<lambda>e. printsRequisite (childrenOf (fragmentCodeOf e)) [] ''__typename'')
       (printFragment 2 exampleEnv abstractFragmentExample)
     = Inr True
   \<and> map_sum id (\<lambda>e. printsRequisite (childrenOf e)
                      [RelayQLField (fst (leafField ''name'' (namedType ''String''))) []]
                      ''__typename'')
       (printField 2 exampleEnv
          (nodeRootField [RelayQLField (fst (leafField ''name'' (namedType ''String''))) []])
          ((namedType ''Query'')\<lparr> isQueryType := True \<rparr>) [] [] False)
     = Inr True"
proof -
  let ?sels = "[RelayQLField (fst (leafField ''name'' (namedType ''String''))) []]"
  let ?root = "nodeRootField ?sels"
  let ?query = "(namedType ''Query'')\<lparr> isQueryType := True \<rparr>"
  obtain e where e: "printQuery 2 exampleEnv ''Q'' [?root] True = Inr e"
    using two_root_fields_example
    by (cases "printQuery 2 exampleEnv ''Q'' [?root] True") auto
  obtain e' where e': "printFragment 2 exampleEnv abstractFragmentExample = Inr e'"
    using abstract_fragment_example
    by (cases "printFragment 2 exampleEnv abstractFragmentExample") auto
  obtain e'' where e'': "printField 2 exampleEnv ?root ?query [] [] False = Inr e''"
    using abstract_field_example
    by (cases "printField 2 exampleEnv ?root ?query [] [] False") auto
  have t: "FIELDS (options exampleEnv) ''__typename'' = ''__typename''"
    by (simp add: FIELDS_def exampleEnv_def)
  have a1: "isAbstract (field_getType (fst ?root))"
    by (simp add: nodeRootField_def nodeInterfaceType_def)
  have a2: "isAbstract (fragment_getType (fst abstractFragmentExample))"
    by (simp add: abstractFragmentExample_def nodeInterfaceType_def)
  have s1: "snd ?root = ?sels" by (simp add: nodeRootField_def)
  have s2: "snd abstractFragmentExample = []" by (simp add: abstractFragmentExample_def)
  note T = typename_requisite
             [where n = 2 and env = exampleEnv and queryName = "''Q''" and rootField = ?root
                and rest = "[]" and ev = True and e = e
                and fragment = abstractFragmentExample and e' = e'
                and field = ?root and parentType = ?query and rs = "[]" and gs = "[]"
                and isGen = False and e'' = e'']
  have r1: "printsRequisite (childrenOf e) ?sels ''__typename''"
    using T e a1 unfolding t s1 by blast
  have r2: "printsRequisite (childrenOf (fragmentCodeOf e')) [] ''__typename''"
    using T e' a2 unfolding t s2 by blast
  have r3: "printsRequisite (childrenOf e'') ?sels ''__typename''"
    using T e'' a1 unfolding t s1 by blast
  show ?thesis
    unfolding e e' e'' using r1 r2 r3 by simp
qed

text \<open>
  C4 as stated fails for \<open>query Q { node(id: "4") { __typename  kind: __typename } }\<close>: the
  printed selection set holds the typename field twice, once per request.
\<close>

theorem typename_requested_twice_counterexample:
  "map_sum id (\<lambda>e. map printedFieldName (childrenOf e))
     (printQuery 2 exampleEnv ''Q'' [typenameTwiceExample] True)
   = Inr [Some ''__typename'', Some ''__typename'', Some ''id'']
   \<and> isAbstract (field_getType (fst typenameTwiceExample))"
  by code_simp

lemma friends_example:
  "map_sum id (\<lambda>e. map printedFieldName (childrenOf e))
     (printField 4 exampleEnv
        (friendsField [RelayQLArgument ''first'' intArgType (ScalarValue (JSNumber 5))])
        userType [] [] False)
   = Inr [Some ''edges'', Some ''pageInfo'']"
  by code_simp

theorem pageInfo_requisite_witness:
  "map_sum id (\<lambda>e. printsRequisite (childrenOf e)
                      [RelayQLField (fst (leafField ''edges'' userEdgeType))
                         [RelayQLField (fst (leafField ''cursor'' (namedType ''String''))) []]]
                      ''pageInfo'')
     (printField 4 exampleEnv
        (friendsField [RelayQLArgument ''first'' intArgType (ScalarValue (JSNumber 5))])
        userType [] [] False)
   = Inr True"
proof -
  let ?f = "friendsField [RelayQLArgument ''first'' intArgType (ScalarValue (JSNumber 5))]"
  obtain e where e: "printField 4 exampleEnv ?f userType [] [] False = Inr e"
    using friends_example
    by (cases "printField 4 exampleEnv ?f userType [] [] False") auto
  have p: "FIELDS (options exampleEnv) ''pageInfo'' = ''pageInfo''"
    and d: "FIELDS (options exampleEnv) ''edges'' = ''edges''"
    by (simp_all add: FIELDS_def exampleEnv_def)
  have s: "snd ?f = [RelayQLField (fst (leafField ''edges'' userEdgeType))
                       [RelayQLField (fst (leafField ''cursor'' (namedType ''String''))) []]]"
    by (simp add: friendsField_def)
  have a1: "isConnection (field_getType (fst ?f))"
    by (simp add: friendsField_def userConnectionType_def)
  have a2: "hasField (schema exampleEnv) (field_getType (fst ?f)) ''pageInfo''"
    by code_simp
  have a3: "''edges'' \<in> set (requestedNames (snd ?f))"
    by code_simp
  note T = pageInfo_requisite
             [where n = 4 and env = exampleEnv and field = ?f and parentType = userType
                and rs = "[]" and gs = "[]" and isGen = False and e = e]
  have "printsRequisite (childrenOf e) (snd ?f) ''pageInfo''"
    using T e a1 a2 a3 unfolding p d by blast
  then show ?thesis
    unfolding e s by simp
qed

text \<open>
  C3 as stated fails for a connection type that declares no \<open>pageInfo\<close> field:
  \<open>tags { edges { cursor } }\<close> prints \<open>edges\<close> alone.
\<close>

theorem connection_without_pageInfo_counterexample:
  "map_sum id (\<lambda>e. map printedFieldName (childrenOf e))
     (printField 3 exampleEnv tagsFieldExample userType [] [] False)
   = Inr [Some ''edges'']
   \<and> isConnection (field_getType (fst tagsFieldExample))
   \<and> ''edges'' \<in> set (requestedNames (snd tagsFieldExample))"
  by code_simp


end
